theory Spec2Isabelle
  imports Main "HOL-Library.Char_ord" "HOL-Library.List_Lexorder"
begin

section \<open>JavaScript values and errors\<close>

text \<open>
  The server (the Express application with \<^verbatim>\<open>mailTmRequest\<close>,
  \<^verbatim>\<open>getAvailableDomains\<close>, \<^verbatim>\<open>provisionMailboxWithMailTm\<close> and the
  \<^verbatim>\<open>/api/mailboxes\<close> routes) works on parsed JSON. A JSON value is modelled as it is
  parsed; \<open>JNull\<close> stands for both \<^verbatim>\<open>null\<close> and \<^verbatim>\<open>undefined\<close> (the code only
  tests them for truthiness or with \<^verbatim>\<open>?.\<close>), and numbers are integers.
  Timestamps are milliseconds since the epoch (\<^verbatim>\<open>toISOString\<close> of a dayjs value is a
  one-to-one rendering of that number).
\<close>

datatype json =
    JNull
  | JBool bool
  | JNum int
  | JStr string
  | JArr "json list"
  | JObj "(string \<times> json) list"

text \<open>JavaScript truthiness: \<^verbatim>\<open>null\<close>, \<^verbatim>\<open>false\<close>, \<^verbatim>\<open>0\<close> and \<^verbatim>\<open>""\<close> are falsy.\<close>

fun truthy :: "json \<Rightarrow> bool" where
  "truthy JNull = False"
| "truthy (JBool b) = b"
| "truthy (JNum n) = (n \<noteq> 0)"
| "truthy (JStr s) = (s \<noteq> [])"
| "truthy (JArr xs) = True"
| "truthy (JObj kvs) = True"

text \<open>\<^verbatim>\<open>a || b\<close>.\<close>

definition js_or :: "json \<Rightarrow> json \<Rightarrow> json" where
  "js_or a b = (if truthy a then a else b)"

text \<open>
  \<^verbatim>\<open>v?.key\<close>: the property of an object, \<open>JNull\<close> (undefined) when the key is absent
  or the value has no such own property. (A later duplicate key wins in \<^verbatim>\<open>JSON.parse\<close>;
  the association list is read so.)
\<close>

fun field :: "string \<Rightarrow> json \<Rightarrow> json" where
  "field k (JObj kvs) = (case map_of (rev kvs) k of None \<Rightarrow> JNull | Some v \<Rightarrow> v)"
| "field k v = JNull"

text \<open>
  The errors the server code throws or lets through:
  \<^item> \<open>HttpError status data\<close>: the \<^verbatim>\<open>Error\<close> built by \<^verbatim>\<open>mailTmRequest\<close> for a
    response that is not ok, with \<^verbatim>\<open>error.status = response.status\<close> and
    \<^verbatim>\<open>error.data = data\<close> (its message text, a user-facing sentence, is not modelled:
    no retry or rotation decision reads it);
  \<^item> \<open>FetchRejection name\<close>: the exception \<^verbatim>\<open>fetch\<close> or \<^verbatim>\<open>response.text()\<close> rejected
    with, rethrown unchanged; it carries a \<^verbatim>\<open>name\<close> and no \<^verbatim>\<open>status\<close>;
  \<^item> \<open>PlainError message\<close>: \<^verbatim>\<open>new Error(message)\<close> with nothing attached;
  \<^item> \<open>StatusError status message\<close>: \<^verbatim>\<open>new Error(message)\<close> with
    \<^verbatim>\<open>error.status = status\<close> attached;
  \<^item> \<open>JsTypeError\<close>: a \<^verbatim>\<open>TypeError\<close> raised by the runtime: reading a property of
    \<^verbatim>\<open>null\<close>, or calling a method the value does not have;
  \<^item> \<open>JsRangeError\<close>: the \<^verbatim>\<open>RangeError\<close> of \<^verbatim>\<open>toISOString\<close> on a date outside the
    range of \<^verbatim>\<open>Date\<close>.
\<close>

datatype js_error =
    HttpError nat json
  | FetchRejection string
  | PlainError string
  | StatusError nat string
  | JsTypeError
  | JsRangeError

text \<open>\<^verbatim>\<open>error.status\<close>, \<^verbatim>\<open>error.name\<close> and \<^verbatim>\<open>error.data\<close>.\<close>

fun err_status :: "js_error \<Rightarrow> json" where
  "err_status (HttpError s d) = JNum (int s)"
| "err_status (StatusError s m) = JNum (int s)"
| "err_status (FetchRejection n) = JNull"
| "err_status (PlainError m) = JNull"
| "err_status JsTypeError = JNull"
| "err_status JsRangeError = JNull"

fun err_name :: "js_error \<Rightarrow> string" where
  "err_name (FetchRejection n) = n"
| "err_name JsTypeError = ''TypeError''"
| "err_name JsRangeError = ''RangeError''"
| "err_name e = ''Error''"

fun err_data :: "js_error \<Rightarrow> json" where
  "err_data (HttpError s d) = d"
| "err_data e = JNull"

section \<open>Upstream client: \<^verbatim>\<open>mailTmRequest\<close>\<close>

text \<open>
  What one HTTP attempt can end in: a response (its status, its body text, and what
  \<^verbatim>\<open>JSON.parse\<close> makes of the text, \<open>None\<close> when it throws), or a rejection of
  \<^verbatim>\<open>fetch\<close> named by the exception's \<^verbatim>\<open>name\<close>. When the timer of 30 s (55 s on
  Vercel) fires, \<^verbatim>\<open>controller.abort()\<close> makes \<^verbatim>\<open>fetch\<close> reject with the
  \<^verbatim>\<open>AbortError\<close>; a network failure is a \<^verbatim>\<open>TypeError\<close>.
\<close>

datatype outcome =
    Response nat string "json option"
  | Rejected string

definition response_ok :: "nat \<Rightarrow> bool" where
  "response_ok status = (200 \<le> status \<and> status \<le> 299)"

text \<open>\<^verbatim>\<open>Math.min(1000 * Math.pow(2, retries), 5000)\<close>.\<close>

definition backoffDelay :: "nat \<Rightarrow> nat" where
  "backoffDelay retries = min (1000 * 2 ^ retries) 5000"

text \<open>
  \<^verbatim>\<open>mailTmRequest(pathFragment, {retries, maxRetries})\<close>. The environment \<open>env\<close> gives the
  outcome of the attempt made with each value of \<^verbatim>\<open>retries\<close>. The result is the list of
  delays slept before the retries, in order, and what the call resolves to (\<open>Inr data\<close>)
  or rejects with (\<open>Inl error\<close>). The error built for a response that is not ok is thrown
  inside the \<^verbatim>\<open>try\<close> and passes through the \<^verbatim>\<open>catch\<close>, whose name test it fails
  (its name is \<^verbatim>\<open>Error\<close>).
\<close>

function mailTmRequest :: "(nat \<Rightarrow> outcome) \<Rightarrow> nat \<Rightarrow> nat \<Rightarrow> nat list \<times> (js_error + json)" where
  "mailTmRequest env retries maxRetries =
     (case env retries of
        Response status body parsed \<Rightarrow>
          (let data = (if body \<noteq> [] then (case parsed of None \<Rightarrow> JNull | Some j \<Rightarrow> j) else JNull) in
           if \<not> response_ok status then
             (if 500 \<le> status \<and> retries < maxRetries then
                (case mailTmRequest env (retries + 1) maxRetries of
                   (ds, r) \<Rightarrow> (backoffDelay retries # ds, r))
              else ([], Inl (HttpError status data)))
           else ([], Inr data))
      | Rejected name \<Rightarrow>
          (if (name = ''AbortError'' \<or> name = ''TimeoutError'' \<or> name = ''TypeError'')
              \<and> retries < maxRetries then
             (case mailTmRequest env (retries + 1) maxRetries of
                (ds, r) \<Rightarrow> (backoffDelay retries # ds, r))
           else ([], Inl (FetchRejection name))))"
  by pat_completeness auto
termination
  by (relation "measure (\<lambda>(env, retries, maxRetries). maxRetries - retries)") auto

declare mailTmRequest.simps [simp del]

text \<open>
  The outcomes the specification names: a 5xx response, a 4xx response, a network or
  timeout failure (the three exception names the \<^verbatim>\<open>catch\<close> tests).
\<close>

definition is5xx :: "outcome \<Rightarrow> bool" where
  "is5xx oc = (case oc of Response status body parsed \<Rightarrow> 500 \<le> status \<and> status \<le> 599 | Rejected name \<Rightarrow> False)"

definition is4xx :: "outcome \<Rightarrow> bool" where
  "is4xx oc = (case oc of Response status body parsed \<Rightarrow> 400 \<le> status \<and> status \<le> 499 | Rejected name \<Rightarrow> False)"

definition isNetworkOrTimeout :: "outcome \<Rightarrow> bool" where
  "isNetworkOrTimeout oc =
     (case oc of Response status body parsed \<Rightarrow> False
      | Rejected name \<Rightarrow> name = ''AbortError'' \<or> name = ''TimeoutError'' \<or> name = ''TypeError'')"

text \<open>HTTP status codes have three digits and a first digit of at most 5.\<close>

definition httpStatusOk :: "outcome \<Rightarrow> bool" where
  "httpStatusOk oc = (case oc of Response status body parsed \<Rightarrow> status \<le> 599 | Rejected name \<Rightarrow> True)"


text \<open>
  The two retry tests of the code, read off one outcome: a response that is not ok with
  \<^verbatim>\<open>response.status >= 500\<close>, or a rejection whose name is one of the three.
\<close>

definition retried :: "outcome \<Rightarrow> bool" where
  "retried oc =
     (case oc of Response status body parsed \<Rightarrow> \<not> response_ok status \<and> 500 \<le> status
      | Rejected name \<Rightarrow> name = ''AbortError'' \<or> name = ''TimeoutError'' \<or> name = ''TypeError'')"

text \<open>Sample environments: a 503, then a network failure, then a 404; and a host that never answers in time.\<close>

definition env_503_network_404 :: "nat \<Rightarrow> outcome" where
  "env_503_network_404 a =
     (if a = 0 then Response 503 ''unavailable'' None
      else if a = 1 then Rejected ''TypeError''
      else Response 404 ''{}'' (Some (JObj [])))"

definition env_always_timeout :: "nat \<Rightarrow> outcome" where
  "env_always_timeout a = Rejected ''AbortError''"

section \<open>Strings\<close>

text \<open>
  \<^verbatim>\<open>String.prototype.toLowerCase\<close> on the characters a domain name is written with: the
  letters A to Z are mapped to a to z, every other byte is left as it is.
\<close>

definition lowerChar :: "char \<Rightarrow> char" where
  "lowerChar c =
     (case map_of (zip ''ABCDEFGHIJKLMNOPQRSTUVWXYZ'' ''abcdefghijklmnopqrstuvwxyz'') c of
        None \<Rightarrow> c
      | Some l \<Rightarrow> l)"

definition toLowerCase :: "string \<Rightarrow> string" where
  "toLowerCase s = map lowerChar s"

text \<open>\<^verbatim>\<open>haystack.includes(needle)\<close> on strings.\<close>

fun includesStr :: "string \<Rightarrow> string \<Rightarrow> bool" where
  "includesStr [] needle = (needle = [])"
| "includesStr (c # cs) needle = (take (length needle) (c # cs) = needle \<or> includesStr cs needle)"

text \<open>\<^verbatim>\<open>s.split(sep)\<close> for a one-character separator.\<close>

fun splitOn :: "char \<Rightarrow> string \<Rightarrow> string list" where
  "splitOn sep [] = [[]]"
| "splitOn sep (c # cs) =
     (if c = sep then [] # splitOn sep cs
      else (case splitOn sep cs of
              [] \<Rightarrow> [[c]]
            | p # ps \<Rightarrow> (c # p) # ps))"

text \<open>\<^verbatim>\<open>xs.join(sep)\<close> on strings.\<close>

fun joinWith :: "string \<Rightarrow> string list \<Rightarrow> string" where
  "joinWith sep [] = []"
| "joinWith sep [x] = x"
| "joinWith sep (x # y # ys) = x @ sep @ joinWith sep (y # ys)"

section \<open>Domain catalog\<close>

definition DOMAIN_CACHE_TTL_MS :: int where
  "DOMAIN_CACHE_TTL_MS = 10 * 60 * 1000"

definition DEFAULT_PREFERRED_DOMAINS :: "string list" where
  "DEFAULT_PREFERRED_DOMAINS =
     [''comfythings.com'', ''elyxstore.com'', ''ketoblisslabs.com'', ''ekii.de'',
      ''asia-mail.com'', ''doer.sbs'', ''badfist.com'', ''besenica.com'', ''mail.tm'']"

text \<open>\<^verbatim>\<open>cachedDomains = { expiresAt, items }\<close>, initially \<^verbatim>\<open>{ expiresAt: 0, items: [] }\<close>.\<close>

record domain_cache =
  cache_expiresAt :: int
  cache_items :: "json list"

definition initialCache :: domain_cache where
  "initialCache = \<lparr>cache_expiresAt = 0, cache_items = []\<rparr>"

text \<open>
  \<^verbatim>\<open>payload?.["hydra:member"] || []\<close>. The provider's \<^verbatim>\<open>hydra:member\<close> is an array; a
  member of another type is read here as no member.
\<close>

definition memberList :: "json \<Rightarrow> json list" where
  "memberList payload =
     (case js_or (field ''hydra:member'' payload) (JArr []) of
        JArr xs \<Rightarrow> xs
      | other \<Rightarrow> [])"

text \<open>
  \<^verbatim>\<open>getAvailableDomains()\<close> at clock reading \<open>now\<close>; \<open>env\<close> is the upstream's behaviour
  for the request of \<^verbatim>\<open>/domains\<close>, made only when the cache is empty or has expired.
  The result is what the call returns or throws, and the cache afterwards.
\<close>

definition getAvailableDomains ::
  "int \<Rightarrow> (nat \<Rightarrow> outcome) \<Rightarrow> domain_cache \<Rightarrow> (js_error + json list) \<times> domain_cache" where
  "getAvailableDomains now env cache =
     (if cache_items cache \<noteq> [] \<and> cache_expiresAt cache > now then (Inr (cache_items cache), cache)
      else
        (case snd (mailTmRequest env 0 3) of
           Inr payload \<Rightarrow>
             (let domains = memberList payload in
              (Inr domains, \<lparr>cache_expiresAt = now + DOMAIN_CACHE_TTL_MS, cache_items = domains\<rparr>))
         | Inl error \<Rightarrow>
             (if length (cache_items cache) > 0 then (Inr (cache_items cache), cache)
              else (Inl error, cache))))"

definition normalizeDomainEntry :: "json \<Rightarrow> json" where
  "normalizeDomainEntry entry =
     (if \<not> truthy entry then JNull
      else (case entry of
              JStr s \<Rightarrow> JStr s
            | other \<Rightarrow>
                js_or (js_or (js_or (field ''domain'' entry) (field ''name'' entry))
                             (field ''address'' entry))
                      JNull))"

definition listDomainStrings :: "json list \<Rightarrow> string list" where
  "listDomainStrings entries =
     List.map_filter (\<lambda>v. case v of JStr s \<Rightarrow> Some s | other \<Rightarrow> None)
       (map normalizeDomainEntry entries)"

section \<open>Server state\<close>

text \<open>
  What provisioning returns (\<^verbatim>\<open>accountId\<close>, \<^verbatim>\<open>address\<close>, \<^verbatim>\<open>domain\<close>,
  \<^verbatim>\<open>password\<close>, \<^verbatim>\<open>token\<close>, \<^verbatim>\<open>tokenExpiresAt\<close>, \<^verbatim>\<open>refreshToken\<close>), and the
  mailbox object \<^verbatim>\<open>createMailbox\<close> builds from it and stores in the \<^verbatim>\<open>mailboxes\<close> map.
\<close>

record credential =
  accountId :: json
  address :: string
  domain :: string
  password :: string
  token :: json
  tokenExpiresAt :: int
  refreshToken :: json

record mailbox = credential +
  mailboxId :: string
  createdAt :: int
  expiresAt :: int
  lastMessageCount :: nat

text \<open>The module's mutable state: \<^verbatim>\<open>cachedDomains\<close>, \<^verbatim>\<open>domainRotationIndex\<close>, \<^verbatim>\<open>mailboxes\<close>.\<close>

record server_state =
  cachedDomains :: domain_cache
  domainRotationIndex :: nat
  mailboxes :: "string \<Rightarrow> mailbox option"

definition initialState :: server_state where
  "initialState = \<lparr>cachedDomains = initialCache, domainRotationIndex = 0, mailboxes = Map.empty\<rparr>"

section \<open>Domain rotation: \<^verbatim>\<open>pickMailTmDomain\<close>\<close>

text \<open>The message of the 422 error for a requested domain that is not in the catalog.\<close>

definition notAvailableMessage :: "string \<Rightarrow> string list \<Rightarrow> string" where
  "notAvailableMessage requested domainStrings =
     ''Requested domain \"'' @ requested @ ''\" is not available. Try one of: ''
       @ joinWith '', '' domainStrings"

text \<open>
  \<^verbatim>\<open>pickMailTmDomain(preferredDomain)\<close>. A truthy \<^verbatim>\<open>preferredDomain\<close> that is not a
  string has no \<^verbatim>\<open>toLowerCase\<close>: the call throws a \<^verbatim>\<open>TypeError\<close>. (The
  \<^verbatim>\<open>availableDomains\<close> attached to the 422 error is the list in its message.)
\<close>

definition pickMailTmDomain ::
  "int \<Rightarrow> (nat \<Rightarrow> outcome) \<Rightarrow> json \<Rightarrow> server_state \<Rightarrow> (js_error + string) \<times> server_state" where
  "pickMailTmDomain now env preferredDomain st =
     (case getAvailableDomains now env (cachedDomains st) of
        (Inl error, cache) \<Rightarrow> (Inl error, st\<lparr>cachedDomains := cache\<rparr>)
      | (Inr domains, cache) \<Rightarrow>
          (let st1 = st\<lparr>cachedDomains := cache\<rparr> in
           if length domains = 0 then (Inl (PlainError ''No disposable domains available''), st1)
           else
             (let domainStrings = listDomainStrings domains in
              if length domainStrings = 0 then (Inl (PlainError ''Domain list is empty''), st1)
              else if truthy preferredDomain then
                (case preferredDomain of
                   JStr requested \<Rightarrow>
                     (case find (\<lambda>d. toLowerCase d = toLowerCase requested) domainStrings of
                        None \<Rightarrow> (Inl (StatusError 422 (notAvailableMessage requested domainStrings)), st1)
                      | Some match \<Rightarrow> (Inr match, st1))
                 | other \<Rightarrow> (Inl JsTypeError, st1))
              else
                (let availablePreferred =
                       filter (\<lambda>d. toLowerCase d \<in> set DEFAULT_PREFERRED_DOMAINS) domainStrings in
                 if length availablePreferred > 0 then
                   (Inr (availablePreferred ! (domainRotationIndex st1 mod length availablePreferred)),
                    st1\<lparr>domainRotationIndex :=
                          (domainRotationIndex st1 + 1) mod length availablePreferred\<rparr>)
                 else
                   (Inr (domainStrings ! (domainRotationIndex st1 mod length domainStrings)),
                    st1\<lparr>domainRotationIndex :=
                          (domainRotationIndex st1 + 1) mod length domainStrings\<rparr>)))))"

text \<open>
  \<^verbatim>\<open>xs.sort((a, b) => a.toLowerCase().localeCompare(b.toLowerCase()))\<close>.
  \<^verbatim>\<open>Array.prototype.sort\<close> is stable, and \<^verbatim>\<open>localeCompare\<close> compares the collation
  keys of the two strings: the collation is the parameter \<open>ckey\<close>, a function from
  strings into a linear order.
\<close>

definition sortDomains :: "(string \<Rightarrow> 'k::linorder) \<Rightarrow> string list \<Rightarrow> string list" where
  "sortDomains ckey xs = sort_key (\<lambda>d. ckey (toLowerCase d)) xs"

definition getAvailablePreferredDomains ::
  "(string \<Rightarrow> 'k::linorder) \<Rightarrow> int \<Rightarrow> (nat \<Rightarrow> outcome) \<Rightarrow> domain_cache
     \<Rightarrow> (js_error + string list) \<times> domain_cache" where
  "getAvailablePreferredDomains ckey now env cache =
     (case getAvailableDomains now env cache of
        (Inl error, cache1) \<Rightarrow> (Inl error, cache1)
      | (Inr domains, cache1) \<Rightarrow>
          (let domainStrings = listDomainStrings domains;
               preferred = filter (\<lambda>d. toLowerCase d \<in> set DEFAULT_PREFERRED_DOMAINS) domainStrings
           in (Inr (sortDomains ckey preferred), cache1)))"

text \<open>
  \<^verbatim>\<open>xs.findIndex(p)\<close>, and the three statements
  \<^verbatim>\<open>i = xs.findIndex(d => d.toLowerCase() === name); if (i >= 0) { x = xs.splice(i, 1)[0]; xs.unshift(x) }\<close>.
\<close>

fun findIndex :: "('a \<Rightarrow> bool) \<Rightarrow> 'a list \<Rightarrow> int" where
  "findIndex p [] = - 1"
| "findIndex p (x # xs) =
     (if p x then 0 else (let i = findIndex p xs in if i < 0 then - 1 else i + 1))"

definition moveToFront :: "string \<Rightarrow> string list \<Rightarrow> string list" where
  "moveToFront name xs =
     (let i = findIndex (\<lambda>d. toLowerCase d = name) xs in
      if i \<ge> 0 then (xs ! nat i) # (take (nat i) xs @ drop (nat i + 1) xs) else xs)"

text \<open>The names moved to the front, in the order of the statements that move them.\<close>

definition movedToFront :: "string list" where
  "movedToFront =
     [''comfythings.com'', ''badfist.com'', ''besenica.com'', ''asia-mail.com'', ''doer.sbs'',
      ''ekii.de'', ''ketoblisslabs.com'', ''elyxstore.com'', ''mail.tm'']"

text \<open>
  The reordering of \<^verbatim>\<open>domainsToTry\<close> in \<^verbatim>\<open>provisionMailboxWithMailTm\<close>: the sort,
  then the nine moves, one after the other (\<open>fold\<close> applies them from left to right).
\<close>

definition reorderDomainsToTry :: "(string \<Rightarrow> 'k::linorder) \<Rightarrow> string list \<Rightarrow> string list" where
  "reorderDomainsToTry ckey xs = fold moveToFront movedToFront (sortDomains ckey xs)"

text \<open>The order the nine names end up in: the last one moved comes first.\<close>

definition priorityOrder :: "string list" where
  "priorityOrder = rev movedToFront"

text \<open>A collation for examples: the strings themselves, compared byte by byte.\<close>

definition byteOrder :: "string \<Rightarrow> string" where
  "byteOrder s = s"

text \<open>
  Notions for stating what the reordering does: a domain string is \<open>named name\<close> when
  its lower-case form is \<open>name\<close>; the first occurrences, in a list, of the names of a
  list of names; and a list without the first element that satisfies a predicate.
\<close>

definition named :: "string \<Rightarrow> string \<Rightarrow> bool" where
  "named name d = (toLowerCase d = name)"

definition firstOccurrences :: "string list \<Rightarrow> string list \<Rightarrow> string list" where
  "firstOccurrences names xs = List.map_filter (\<lambda>name. find (named name) xs) names"

fun removeFirst :: "('a \<Rightarrow> bool) \<Rightarrow> 'a list \<Rightarrow> 'a list" where
  "removeFirst p [] = []"
| "removeFirst p (x # xs) = (if p x then xs else x # removeFirst p xs)"

definition removeFirsts :: "string list \<Rightarrow> string list \<Rightarrow> string list" where
  "removeFirsts names xs = fold (\<lambda>name. removeFirst (named name)) names xs"

text \<open>
  The eight names moved after \<^verbatim>\<open>comfythings.com\<close>, in the order they end up in:
  \<^verbatim>\<open>mail.tm\<close> first, \<^verbatim>\<open>badfist.com\<close> last.
\<close>

definition lastEightMoved :: "string list" where
  "lastEightMoved = rev (tl movedToFront)"

section \<open>Provisioning\<close>

definition alphabet :: string where
  "alphabet = ''abcdefghijklmnopqrstuvwxyz0123456789''"

definition letters :: string where
  "letters = ''abcdefghijklmnopqrstuvwxyz''"

definition MAILBOX_LOCAL_PART_LENGTH :: nat where
  "MAILBOX_LOCAL_PART_LENGTH = 10"

definition PASSWORD_LENGTH :: nat where
  "PASSWORD_LENGTH = 24"

text \<open>
  \<^verbatim>\<open>Math.floor(Math.random() * n)\<close> is a whole number from 0 to \<open>n - 1\<close>. The random
  source of one call is a sequence \<open>rnd\<close> of natural numbers, and the draw made in
  iteration \<open>i\<close> is \<open>rnd i mod n\<close>.
\<close>

definition generateIdentifier :: "(nat \<Rightarrow> nat) \<Rightarrow> nat \<Rightarrow> string" where
  "generateIdentifier rnd len = map (\<lambda>i. alphabet ! (rnd i mod length alphabet)) [0 ..< len]"

definition generateLocalPart :: "(nat \<Rightarrow> nat) \<Rightarrow> string" where
  "generateLocalPart rnd =
     (letters ! (rnd 0 mod length letters))
       # map (\<lambda>i. alphabet ! (rnd (i + 1) mod length alphabet)) [0 ..< MAILBOX_LOCAL_PART_LENGTH - 1]"

definition generatePassword :: "(nat \<Rightarrow> nat) \<Rightarrow> string" where
  "generatePassword rnd = generateIdentifier rnd PASSWORD_LENGTH"

text \<open>
  \<^verbatim>\<open>Number(v)\<close>, with \<open>None\<close> for \<^verbatim>\<open>NaN\<close>. A string is read as a number when it is
  empty or a run of decimal digits; the other spellings \<^verbatim>\<open>Number\<close> accepts (sign,
  fraction, exponent, blanks, hexadecimal) and arrays are read as \<^verbatim>\<open>NaN\<close> here. The
  only use is \<^verbatim>\<open>Number(data?.expires_in) || 3600\<close>.
\<close>

definition digitValue :: "char \<Rightarrow> nat" where
  "digitValue c = (case map_of (zip ''0123456789'' [0 ..< 10]) c of None \<Rightarrow> 0 | Some d \<Rightarrow> d)"

definition numberOfString :: "string \<Rightarrow> int option" where
  "numberOfString s =
     (if list_all (\<lambda>c. c \<in> set ''0123456789'') s
      then Some (int (foldl (\<lambda>n c. 10 * n + digitValue c) 0 s))
      else None)"

fun toNumber :: "json \<Rightarrow> int option" where
  "toNumber (JNum n) = Some n"
| "toNumber (JBool b) = Some (if b then 1 else 0)"
| "toNumber (JStr s) = numberOfString s"
| "toNumber JNull = None"
| "toNumber (JArr xs) = None"
| "toNumber (JObj kvs) = None"

text \<open>
  A \<^verbatim>\<open>Date\<close> holds a time value of at most 8.64e15 milliseconds either side of the
  epoch; beyond that the date is invalid and \<^verbatim>\<open>toISOString\<close> throws a \<^verbatim>\<open>RangeError\<close>.
\<close>

definition validTime :: "int \<Rightarrow> bool" where
  "validTime t = (- 8640000000000000 \<le> t \<and> t \<le> 8640000000000000)"

text \<open>
  \<^verbatim>\<open>authenticateMailTm(address, password)\<close>; \<open>now\<close> is the clock read after the request.
  The lifetime \<^verbatim>\<open>expires_in\<close> is the provider's: when
  \<^verbatim>\<open>dayjs().add(expiresIn, "second")\<close> leaves the range of \<^verbatim>\<open>Date\<close>, \<^verbatim>\<open>toISOString\<close>
  throws and the call fails with the \<^verbatim>\<open>RangeError\<close>.
\<close>

record auth_result =
  auth_token :: json
  auth_refreshToken :: json
  auth_tokenExpiresAt :: int

definition authenticateMailTm :: "int \<Rightarrow> (nat \<Rightarrow> outcome) \<Rightarrow> js_error + auth_result" where
  "authenticateMailTm now env =
     (case snd (mailTmRequest env 0 3) of
        Inl error \<Rightarrow> Inl error
      | Inr data \<Rightarrow>
          (let expiresIn = (case toNumber (field ''expires_in'' data) of
                              None \<Rightarrow> 3600
                            | Some n \<Rightarrow> if n \<noteq> 0 then n else 3600)
           in if \<not> validTime (now + expiresIn * 1000) then Inl JsRangeError
              else Inr \<lparr>auth_token = field ''token'' data,
                        auth_refreshToken = js_or (field ''refresh_token'' data) JNull,
                        auth_tokenExpiresAt = now + expiresIn * 1000\<rparr>))"

text \<open>
  What one pass through the body of a \<^verbatim>\<open>try\<close> of \<^verbatim>\<open>provisionMailboxWithMailTm\<close>
  meets: the random draws for the local part and for the password, the upstream's
  behaviour for the \<^verbatim>\<open>POST /accounts\<close> request and for the \<^verbatim>\<open>POST /token\<close> request,
  and the clock at authentication.
\<close>

record attempt_env =
  localPartDraws :: "nat \<Rightarrow> nat"
  passwordDraws :: "nat \<Rightarrow> nat"
  accountsEnv :: "nat \<Rightarrow> outcome"
  tokenEnv :: "nat \<Rightarrow> outcome"
  tokenClock :: int

text \<open>
  The statements both \<^verbatim>\<open>try\<close> bodies start with: the local part, the address and
  the password, the \<^verbatim>\<open>POST /accounts\<close> request, the authentication, and
  \<^verbatim>\<open>actualDomain\<close>. The result holds the local variables the rest of the body reads;
  \<open>Inl\<close> is the exception the \<^verbatim>\<open>catch\<close> receives.
\<close>

record attempt_locals =
  local_address :: string
  local_password :: string
  local_account :: json
  local_auth :: auth_result
  local_actualDomain :: string

definition createAndAuthenticate :: "string \<Rightarrow> attempt_env \<Rightarrow> js_error + attempt_locals" where
  "createAndAuthenticate dname ae =
     (let localPart = generateLocalPart (localPartDraws ae);
          addr = localPart @ ''@'' @ dname;
          pw = generatePassword (passwordDraws ae)
      in case snd (mailTmRequest (accountsEnv ae) 0 3) of
           Inl error \<Rightarrow> Inl error
         | Inr account \<Rightarrow>
             (case authenticateMailTm (tokenClock ae) (tokenEnv ae) of
                Inl error \<Rightarrow> Inl error
              | Inr auth \<Rightarrow>
                  (let actualDomain =
                         (case splitOn CHR ''@'' addr of
                            p0 # p1 # ps \<Rightarrow> if p1 \<noteq> [] then p1 else dname
                          | other \<Rightarrow> dname)
                   in Inr \<lparr>local_address = addr,
                           local_password = pw,
                           local_account = account,
                           local_auth = auth,
                           local_actualDomain = actualDomain\<rparr>)))"

text \<open>
  The object literal both bodies return. Reading \<^verbatim>\<open>account.id\<close> of a \<^verbatim>\<open>null\<close>
  account (a 2xx answer with an empty or unparsable body) is a \<^verbatim>\<open>TypeError\<close>.
\<close>

definition credentialOf :: "attempt_locals \<Rightarrow> js_error + credential" where
  "credentialOf loc =
     (if local_account loc = JNull then Inl JsTypeError
      else Inr \<lparr>accountId = field ''id'' (local_account loc),
                address = local_address loc,
                domain = local_actualDomain loc,
                password = local_password loc,
                token = auth_token (local_auth loc),
                tokenExpiresAt = auth_tokenExpiresAt (local_auth loc),
                refreshToken = auth_refreshToken (local_auth loc)\<rparr>)"

text \<open>
  The body of the \<^verbatim>\<open>try\<close> in the loop for a requested domain: nothing stands between
  \<^verbatim>\<open>actualDomain\<close> and the \<^verbatim>\<open>return\<close>.
\<close>

definition createAccountAttempt :: "string \<Rightarrow> attempt_env \<Rightarrow> js_error + credential" where
  "createAccountAttempt dname ae =
     (case createAndAuthenticate dname ae of
        Inl error \<Rightarrow> Inl error
      | Inr loc \<Rightarrow> credentialOf loc)"

text \<open>
  The body of the \<^verbatim>\<open>try\<close> in the rotation loop. Between \<^verbatim>\<open>actualDomain\<close> and the
  \<^verbatim>\<open>return\<close> it assigns
  \<^verbatim>\<open>domainRotationIndex = (domainRotationIndex + 1) % domainsToTry.length\<close>: the cursor
  has moved when the \<^verbatim>\<open>return\<close> reads \<^verbatim>\<open>account.id\<close>, also when that read throws.
  \<open>len\<close> is \<^verbatim>\<open>domainsToTry.length\<close>; the result is what the body returns or throws,
  and the cursor afterwards.
\<close>

definition rotationAttempt ::
  "nat \<Rightarrow> string \<Rightarrow> attempt_env \<Rightarrow> nat \<Rightarrow> (js_error + credential) \<times> nat" where
  "rotationAttempt len dname ae cursor =
     (case createAndAuthenticate dname ae of
        Inl error \<Rightarrow> (Inl error, cursor)
      | Inr loc \<Rightarrow> (credentialOf loc, (cursor + 1) mod len))"

text \<open>
  \<^verbatim>\<open>v?.includes(s)\<close>: false (undefined) on \<^verbatim>\<open>null\<close>, the substring test on a string,
  membership on an array; a number, boolean or object has no \<^verbatim>\<open>includes\<close> and the call
  throws a \<^verbatim>\<open>TypeError\<close> (\<open>None\<close>).
\<close>

definition optIncludes :: "json \<Rightarrow> string \<Rightarrow> bool option" where
  "optIncludes v s =
     (case v of
        JNull \<Rightarrow> Some False
      | JStr t \<Rightarrow> Some (includesStr t s)
      | JArr xs \<Rightarrow> Some (JStr s \<in> set xs)
      | other \<Rightarrow> None)"

text \<open>\<^verbatim>\<open>a || b\<close> where evaluating either side may throw.\<close>

definition orElse :: "bool option \<Rightarrow> bool option \<Rightarrow> bool option" where
  "orElse a b = (case a of None \<Rightarrow> None | Some t \<Rightarrow> if t then Some True else b)"

definition rateLimitText :: "json \<Rightarrow> bool option" where
  "rateLimitText data =
     orElse (optIncludes (field ''detail'' data) ''rate'')
       (orElse (optIncludes (field ''detail'' data) ''limit'')
          (orElse (optIncludes (field ''message'' data) ''rate'')
             (optIncludes (field ''message'' data) ''limit'')))"

text \<open>
  The \<^verbatim>\<open>catch\<close> of the rotation loop: leave the inner loop (\<^verbatim>\<open>break\<close>), leave it
  after counting the domain as rate-limited, or go on with the next attempt on the same
  domain (\<^verbatim>\<open>continue\<close>). \<open>Inl\<close> is a \<^verbatim>\<open>TypeError\<close> thrown inside the \<^verbatim>\<open>catch\<close>.
\<close>

datatype catch_action = NextDomain | NextDomainRateLimited | RetrySameDomain

definition rotationCatch :: "js_error \<Rightarrow> js_error + catch_action" where
  "rotationCatch error =
     (if (case err_status error of JNum n \<Rightarrow> n \<ge> 500 | other \<Rightarrow> False) then Inr NextDomain
      else if err_status error = JNum 429 then Inr NextDomainRateLimited
      else
        (case (if err_status error = JNum 422 then rateLimitText (err_data error) else Some False) of
           None \<Rightarrow> Inl JsTypeError
         | Some True \<Rightarrow> Inr NextDomainRateLimited
         | Some False \<Rightarrow>
             (if err_status error = JNum 400 \<or> err_status error = JNum 409 then Inr RetrySameDomain
              else Inr NextDomain)))"

text \<open>
  The inner loop \<^verbatim>\<open>for (attempt = 0; attempt < 2; attempt += 1)\<close> on one domain; \<open>aenv\<close>
  gives what each attempt meets and \<open>cursor\<close> is \<^verbatim>\<open>domainRotationIndex\<close>.
  \<open>GaveUp rateLimited\<close>: the loop ended without an account, and \<open>rateLimited\<close> tells
  whether \<^verbatim>\<open>rateLimitedDomains++\<close> ran. The second component is the cursor afterwards.
\<close>

datatype attempts_result = Created credential | GaveUp bool | Threw js_error

function attemptsOnDomain ::
  "nat \<Rightarrow> string \<Rightarrow> (nat \<Rightarrow> attempt_env) \<Rightarrow> nat \<Rightarrow> nat \<Rightarrow> attempts_result \<times> nat" where
  "attemptsOnDomain len dname aenv attempt cursor =
     (if attempt < 2 then
        (case rotationAttempt len dname (aenv attempt) cursor of
           (Inr cred, cursor1) \<Rightarrow> (Created cred, cursor1)
         | (Inl error, cursor1) \<Rightarrow>
             (case rotationCatch error of
                Inl thrown \<Rightarrow> (Threw thrown, cursor1)
              | Inr NextDomain \<Rightarrow> (GaveUp False, cursor1)
              | Inr NextDomainRateLimited \<Rightarrow> (GaveUp True, cursor1)
              | Inr RetrySameDomain \<Rightarrow> attemptsOnDomain len dname aenv (attempt + 1) cursor1))
      else (GaveUp False, cursor))"
  by pat_completeness auto
termination
  by (relation "measure (\<lambda>(len, dname, aenv, attempt, cursor). 2 - attempt)") auto

declare attemptsOnDomain.simps [simp del]

text \<open>
  The outer loop \<^verbatim>\<open>for (domainOffset = 0; domainOffset < maxDomainsToTry; domainOffset++)\<close>,
  with the counter \<^verbatim>\<open>rateLimitedDomains\<close> and the cursor. \<open>env domainOffset attempt\<close> is
  what the attempt meets. The result keeps the counter's final value, and the cursor
  afterwards.
\<close>

datatype rotation_result =
    RotationSuccess credential nat
  | RotationExhausted nat
  | RotationThrew js_error

function rotationLoop ::
  "string list \<Rightarrow> nat \<Rightarrow> nat \<Rightarrow> (nat \<Rightarrow> nat \<Rightarrow> attempt_env) \<Rightarrow> nat \<Rightarrow> nat \<Rightarrow> nat
     \<Rightarrow> rotation_result \<times> nat" where
  "rotationLoop domainsToTry startIndex maxDomainsToTry env domainOffset rateLimitedDomains cursor =
     (if domainOffset < maxDomainsToTry then
        (let currentIndex = (startIndex + domainOffset) mod length domainsToTry;
             dname = domainsToTry ! currentIndex
         in case attemptsOnDomain (length domainsToTry) dname (env domainOffset) 0 cursor of
              (Created cred, cursor1) \<Rightarrow> (RotationSuccess cred rateLimitedDomains, cursor1)
            | (Threw thrown, cursor1) \<Rightarrow> (RotationThrew thrown, cursor1)
            | (GaveUp rateLimited, cursor1) \<Rightarrow>
                rotationLoop domainsToTry startIndex maxDomainsToTry env (domainOffset + 1)
                  (if rateLimited then rateLimitedDomains + 1 else rateLimitedDomains) cursor1)
      else (RotationExhausted rateLimitedDomains, cursor))"
  by pat_completeness auto
termination
  by (relation "measure (\<lambda>(domainsToTry, startIndex, maxDomainsToTry, env, domainOffset,
        rateLimitedDomains, cursor). maxDomainsToTry - domainOffset)") auto

declare rotationLoop.simps [simp del]

definition rateLimitedMessage :: string where
  "rateLimitedMessage =
     ''Unable to allocate mailbox. All domains are currently rate-limited. Please wait a few seconds and try again.''"

definition unavailableMessage :: string where
  "unavailableMessage =
     ''Unable to allocate mailbox at this time. The email service may be temporarily unavailable. Please try again in a few moments.''"

text \<open>
  \<^verbatim>\<open>provisionMailboxWithMailTm\<close> from the test \<^verbatim>\<open>domainsToTry.length === 0\<close> to its
  end: the rotation over the reordered list, which leaves the cursor where the attempts
  put it, the cursor update after the loop, and the final error.
  \<^verbatim>\<open>maxDomainsToTry - 2\<close> is computed on integers: it is negative for a list of one
  domain.
\<close>

definition tryDomainsInRotation ::
  "string list \<Rightarrow> (nat \<Rightarrow> nat \<Rightarrow> attempt_env) \<Rightarrow> server_state \<Rightarrow> (js_error + credential) \<times> server_state" where
  "tryDomainsInRotation domainsToTry env st =
     (if length domainsToTry = 0 then (Inl (PlainError ''No domains available''), st)
      else
        (let maxDomainsToTry = min (length domainsToTry) 15;
             startIndex = domainRotationIndex st mod length domainsToTry
         in case rotationLoop domainsToTry startIndex maxDomainsToTry env 0 0 (domainRotationIndex st) of
              (RotationSuccess cred rateLimitedDomains, cursor) \<Rightarrow>
                (Inr cred, st\<lparr>domainRotationIndex := cursor\<rparr>)
            | (RotationThrew thrown, cursor) \<Rightarrow> (Inl thrown, st\<lparr>domainRotationIndex := cursor\<rparr>)
            | (RotationExhausted rateLimitedDomains, cursor) \<Rightarrow>
                (Inl (PlainError
                        (if int rateLimitedDomains \<ge> int maxDomainsToTry - 2 then rateLimitedMessage
                         else unavailableMessage)),
                 st\<lparr>domainRotationIndex := (cursor + 1) mod length domainsToTry\<rparr>)))"

text \<open>The loop for an explicitly requested domain: up to five attempts.\<close>

function explicitDomainAttempts ::
  "string \<Rightarrow> (nat \<Rightarrow> attempt_env) \<Rightarrow> nat \<Rightarrow> js_error + credential" where
  "explicitDomainAttempts dname aenv attempt =
     (if attempt < 5 then
        (case createAccountAttempt dname (aenv attempt) of
           Inr cred \<Rightarrow> Inr cred
         | Inl error \<Rightarrow>
             (if err_status error = JNum 400 \<or> err_status error = JNum 409 \<or> err_status error = JNum 422
              then explicitDomainAttempts dname aenv (attempt + 1)
              else Inl error))
      else Inl (PlainError ''Unable to allocate mailbox at this time''))"
  by pat_completeness auto
termination
  by (relation "measure (\<lambda>(dname, aenv, attempt). 5 - attempt)") auto

declare explicitDomainAttempts.simps [simp del]

text \<open>
  What one call of \<^verbatim>\<open>provisionMailboxWithMailTm\<close> meets: the clock and the upstream at
  the first and at the second reading of the catalog, and the attempts.
\<close>

record provision_env =
  catalogClock1 :: int
  catalogEnv1 :: "nat \<Rightarrow> outcome"
  catalogClock2 :: int
  catalogEnv2 :: "nat \<Rightarrow> outcome"
  attempts :: "nat \<Rightarrow> nat \<Rightarrow> attempt_env"

definition provisionMailboxWithMailTm ::
  "(string \<Rightarrow> 'k::linorder) \<Rightarrow> json \<Rightarrow> provision_env \<Rightarrow> server_state
     \<Rightarrow> (js_error + credential) \<times> server_state" where
  "provisionMailboxWithMailTm ckey preferredDomain pe st =
     (if truthy preferredDomain then
        (case pickMailTmDomain (catalogClock1 pe) (catalogEnv1 pe) preferredDomain st of
           (Inl error, st1) \<Rightarrow> (Inl error, st1)
         | (Inr chosen, st1) \<Rightarrow> (explicitDomainAttempts chosen (attempts pe 0) 0, st1))
      else
        (case getAvailablePreferredDomains ckey (catalogClock1 pe) (catalogEnv1 pe) (cachedDomains st) of
           (Inl error, cache1) \<Rightarrow> (Inl error, st\<lparr>cachedDomains := cache1\<rparr>)
         | (Inr availablePreferred, cache1) \<Rightarrow>
             (case getAvailableDomains (catalogClock2 pe) (catalogEnv2 pe) cache1 of
                (Inl error, cache2) \<Rightarrow> (Inl error, st\<lparr>cachedDomains := cache2\<rparr>)
              | (Inr allDomains, cache2) \<Rightarrow>
                  (let allDomainStrings = listDomainStrings allDomains;
                       domainsToTry =
                         reorderDomainsToTry ckey
                           (if length availablePreferred > 0 then availablePreferred
                            else allDomainStrings)
                   in tryDomainsInRotation domainsToTry (attempts pe) (st\<lparr>cachedDomains := cache2\<rparr>)))))"

section \<open>Mailbox registry and routes\<close>

definition MAILBOX_TTL_MINUTES :: int where
  "MAILBOX_TTL_MINUTES = 15"

text \<open>\<^verbatim>\<open>dayjs(t).add(n, "minute")\<close> on millisecond timestamps.\<close>

definition addMinutes :: "int \<Rightarrow> int \<Rightarrow> int" where
  "addMinutes t n = t + n * 60 * 1000"

text \<open>
  \<^verbatim>\<open>buildMailboxResponse(mailbox)\<close>: the object literal with its six keys. The two
  timestamps are ISO strings in the code and numbers here.
\<close>

definition buildMailboxResponse :: "mailbox \<Rightarrow> json" where
  "buildMailboxResponse mb =
     JObj [(''mailboxId'', JStr (mailboxId mb)),
           (''address'', JStr (address mb)),
           (''domain'', JStr (domain mb)),
           (''createdAt'', JNum (createdAt mb)),
           (''expiresAt'', JNum (expiresAt mb)),
           (''messageCount'', JNum (int (if lastMessageCount mb \<noteq> 0 then lastMessageCount mb else 0)))]"

text \<open>\<^verbatim>\<open>ensureMailbox(mailboxId)\<close> at clock reading \<open>now\<close>: the mailbox, or the 404 or 410 error.\<close>

definition ensureMailbox ::
  "int \<Rightarrow> string \<Rightarrow> server_state \<Rightarrow> (js_error + mailbox) \<times> server_state" where
  "ensureMailbox now mid st =
     (case mailboxes st mid of
        None \<Rightarrow> (Inl (StatusError 404 ''Mailbox not found or expired''), st)
      | Some mb \<Rightarrow>
          (if now > expiresAt mb
           then (Inl (StatusError 410 ''Mailbox expired''), st\<lparr>mailboxes := (mailboxes st)(mid := None)\<rparr>)
           else (Inr mb, st)))"

text \<open>
  \<^verbatim>\<open>createMailbox(preferredDomain)\<close>; \<open>uuid\<close> is the identifier \<^verbatim>\<open>uuid()\<close> returns and
  \<open>now\<close> the clock read after provisioning.
\<close>

definition createMailbox ::
  "(string \<Rightarrow> 'k::linorder) \<Rightarrow> string \<Rightarrow> int \<Rightarrow> json \<Rightarrow> provision_env \<Rightarrow> server_state
     \<Rightarrow> (js_error + mailbox) \<times> server_state" where
  "createMailbox ckey uuid now preferredDomain pe st =
     (case provisionMailboxWithMailTm ckey preferredDomain pe st of
        (Inl error, st1) \<Rightarrow> (Inl error, st1)
      | (Inr remote, st1) \<Rightarrow>
          (let mb = \<lparr>accountId = accountId remote,
                     address = address remote,
                     domain = domain remote,
                     password = password remote,
                     token = token remote,
                     tokenExpiresAt = tokenExpiresAt remote,
                     refreshToken = refreshToken remote,
                     mailboxId = uuid,
                     createdAt = now,
                     expiresAt = addMinutes now MAILBOX_TTL_MINUTES,
                     lastMessageCount = 0\<rparr>
           in (Inr mb, st1\<lparr>mailboxes := (mailboxes st1)(uuid \<mapsto> mb)\<rparr>)))"

text \<open>
  The route handlers. A handler answers with a JSON body (\<open>Inr\<close>) or hands an error to
  \<^verbatim>\<open>next\<close> (\<open>Inl\<close>). The mailbox object a handler changes is the one stored in the map
  under the identifier of the request.
\<close>

definition postMailboxesRoute ::
  "(string \<Rightarrow> 'k::linorder) \<Rightarrow> string \<Rightarrow> int \<Rightarrow> json \<Rightarrow> provision_env \<Rightarrow> server_state
     \<Rightarrow> (js_error + json) \<times> server_state" where
  "postMailboxesRoute ckey uuid now body pe st =
     (let preferredDomain = js_or (field ''domain'' body) JNull in
      case createMailbox ckey uuid now preferredDomain pe st of
        (Inl error, st1) \<Rightarrow> (Inl error, st1)
      | (Inr mb, st1) \<Rightarrow> (Inr (buildMailboxResponse mb), st1))"

definition getMailboxRoute :: "int \<Rightarrow> string \<Rightarrow> server_state \<Rightarrow> (js_error + json) \<times> server_state" where
  "getMailboxRoute now mid st =
     (case ensureMailbox now mid st of
        (Inl error, st1) \<Rightarrow> (Inl error, st1)
      | (Inr mb, st1) \<Rightarrow> (Inr (buildMailboxResponse mb), st1))"

text \<open>
  \<^verbatim>\<open>POST /api/mailboxes/:mailboxId/extend\<close>: \<open>now\<close> is the clock \<^verbatim>\<open>ensureMailbox\<close> reads,
  \<open>now'\<close> the clock read by \<^verbatim>\<open>dayjs()\<close> in the handler.
\<close>

definition extendRoute ::
  "int \<Rightarrow> int \<Rightarrow> string \<Rightarrow> server_state \<Rightarrow> (js_error + json) \<times> server_state" where
  "extendRoute now now' mid st =
     (case ensureMailbox now mid st of
        (Inl error, st1) \<Rightarrow> (Inl error, st1)
      | (Inr mb, st1) \<Rightarrow>
          (let mb' = mb\<lparr>expiresAt := addMinutes now' MAILBOX_TTL_MINUTES\<rparr>
           in (Inr (buildMailboxResponse mb'), st1\<lparr>mailboxes := (mailboxes st1)(mid \<mapsto> mb')\<rparr>)))"

section \<open>Inbox retrieval\<close>

text \<open>Decimal rendering of a number, for \<^verbatim>\<open>String(n)\<close>.\<close>

fun showNat :: "nat \<Rightarrow> string" where
  "showNat n =
     (if n < 10 then [''0123456789'' ! n]
      else showNat (n div 10) @ [''0123456789'' ! (n mod 10)])"

declare showNat.simps [simp del]

definition showInt :: "int \<Rightarrow> string" where
  "showInt i = (if i < 0 then ''-'' @ showNat (nat (- i)) else showNat (nat i))"

text \<open>
  What an element contributes to \<^verbatim>\<open>array.join(sep)\<close>: nothing for \<^verbatim>\<open>null\<close>, and
  \<^verbatim>\<open>String(v)\<close> otherwise.
\<close>

fun elementString :: "json \<Rightarrow> string" where
  "elementString JNull = []"
| "elementString (JBool b) = (if b then ''true'' else ''false'')"
| "elementString (JNum n) = showInt n"
| "elementString (JStr s) = s"
| "elementString (JArr xs) = joinWith '','' (map elementString xs)"
| "elementString (JObj kvs) = ''[object Object]''"

text \<open>The object literal built for one message of \<^verbatim>\<open>successfulMessages\<close> that is not \<^verbatim>\<open>null\<close>.\<close>

definition normalizeMessage :: "json \<Rightarrow> json" where
  "normalizeMessage message =
     JObj [(''id'', field ''id'' message),
           (''from'', js_or (js_or (field ''address'' (field ''from'' message))
                                  (field ''name'' (field ''from'' message)))
                            (JStr ''unknown'')),
           (''subject'', js_or (field ''subject'' message) (JStr ''(no subject)'')),
           (''body'', js_or (js_or (field ''text'' message) (field ''intro'' message)) (JStr [])),
           (''html'', (case field ''html'' message of
                         JArr parts \<Rightarrow> JStr (joinWith [] (map elementString parts))
                       | other \<Rightarrow> js_or other (JStr []))),
           (''intro'', field ''intro'' message),
           (''seen'', field ''seen'' message),
           (''receivedAt'', field ''createdAt'' message)]"

text \<open>
  \<^verbatim>\<open>ensureMailTmToken(mailbox)\<close>: \<open>now\<close> is the clock of the validity test, \<open>env\<close> and
  \<open>authClock\<close> what a re-authentication meets.
\<close>

definition ensureMailTmToken ::
  "int \<Rightarrow> (nat \<Rightarrow> outcome) \<Rightarrow> int \<Rightarrow> mailbox \<Rightarrow> (js_error + json) \<times> mailbox" where
  "ensureMailTmToken now env authClock mb =
     (if truthy (token mb) \<and> now < tokenExpiresAt mb then (Inr (token mb), mb)
      else
        (case authenticateMailTm authClock env of
           Inl error \<Rightarrow> (Inl error, mb)
         | Inr auth \<Rightarrow>
             (Inr (auth_token auth),
              mb\<lparr>token := auth_token auth,
                 refreshToken := auth_refreshToken auth,
                 tokenExpiresAt := auth_tokenExpiresAt auth\<rparr>)))"

text \<open>
  What one call of \<^verbatim>\<open>fetchMailboxMessages\<close> meets: the clocks and the upstream for the
  token, the upstream for the list request, and the upstream for the detail request of
  each member of the list, by its position.
\<close>

record messages_env =
  tokenCheckClock :: int
  reauthEnv :: "nat \<Rightarrow> outcome"
  reauthClock :: int
  listEnv :: "nat \<Rightarrow> outcome"
  detailEnv :: "nat \<Rightarrow> nat \<Rightarrow> outcome"

text \<open>
  \<^verbatim>\<open>fetchMailboxMessages(mailbox)\<close>. Two property reads can throw a \<^verbatim>\<open>TypeError\<close>:
  \<^verbatim>\<open>item.id\<close> while the detail requests are built, when a member of the list is
  \<^verbatim>\<open>null\<close>; and \<^verbatim>\<open>message.id\<close> in the normalisation, when a fulfilled detail request
  resolved to \<^verbatim>\<open>null\<close> (\<^verbatim>\<open>mailTmRequest\<close> returns \<^verbatim>\<open>null\<close> for a 2xx answer whose body
  is empty or is not JSON). \<^verbatim>\<open>Promise.allSettled\<close> keeps the order of the members.
\<close>

definition fetchMailboxMessages ::
  "messages_env \<Rightarrow> mailbox \<Rightarrow> (js_error + json list) \<times> mailbox" where
  "fetchMailboxMessages me mb =
     (case ensureMailTmToken (tokenCheckClock me) (reauthEnv me) (reauthClock me) mb of
        (Inl error, mb1) \<Rightarrow> (Inl error, mb1)
      | (Inr tok, mb1) \<Rightarrow>
          (case snd (mailTmRequest (listEnv me) 0 3) of
             Inl error \<Rightarrow> (Inl error, mb1)
           | Inr list \<Rightarrow>
               (let members = memberList list in
                if length members = 0 then (Inr [], mb1\<lparr>lastMessageCount := 0\<rparr>)
                else if JNull \<in> set members then (Inl JsTypeError, mb1)
                else
                  (let detailed = map (\<lambda>i. snd (mailTmRequest (detailEnv me i) 0 3)) [0 ..< length members];
                       successfulMessages =
                         List.map_filter (\<lambda>r. case r of Inl reason \<Rightarrow> None | Inr v \<Rightarrow> Some v) detailed
                   in if JNull \<in> set successfulMessages then (Inl JsTypeError, mb1)
                      else
                        (let normalized = map normalizeMessage successfulMessages
                         in (Inr normalized, mb1\<lparr>lastMessageCount := length normalized\<rparr>))))))"

definition getMessagesRoute ::
  "int \<Rightarrow> messages_env \<Rightarrow> string \<Rightarrow> server_state \<Rightarrow> (js_error + json) \<times> server_state" where
  "getMessagesRoute now me mid st =
     (case ensureMailbox now mid st of
        (Inl error, st1) \<Rightarrow> (Inl error, st1)
      | (Inr mb, st1) \<Rightarrow>
          (case fetchMailboxMessages me mb of
             (Inl error, mb1) \<Rightarrow> (Inl error, st1\<lparr>mailboxes := (mailboxes st1)(mid \<mapsto> mb1)\<rparr>)
           | (Inr messages, mb1) \<Rightarrow>
               (Inr (JObj [(''mailbox'', buildMailboxResponse mb1), (''messages'', JArr messages)]),
                st1\<lparr>mailboxes := (mailboxes st1)(mid \<mapsto> mb1)\<rparr>)))"

section \<open>Sample inputs\<close>

text \<open>A catalog answer with three entries, an answer with none, and the caches they leave.\<close>

definition sampleCatalog :: "json list" where
  "sampleCatalog = [JStr ''mail.tm'', JObj [(''domain'', JStr ''Ekii.de'')], JStr ''other.org'']"

definition env_catalog_ok :: "nat \<Rightarrow> outcome" where
  "env_catalog_ok a =
     Response 200 ''{\"hydra:member\":[\"mail.tm\",{\"domain\":\"Ekii.de\"},\"other.org\"]}''
       (Some (JObj [(''hydra:member'', JArr sampleCatalog)]))"

definition env_catalog_empty :: "nat \<Rightarrow> outcome" where
  "env_catalog_empty a =
     Response 200 ''{\"hydra:member\":[]}'' (Some (JObj [(''hydra:member'', JArr [])]))"

definition sampleCache :: domain_cache where
  "sampleCache = \<lparr>cache_expiresAt = 601000, cache_items = sampleCatalog\<rparr>"

definition emptiedCache :: domain_cache where
  "emptiedCache = \<lparr>cache_expiresAt = 1300000, cache_items = []\<rparr>"

definition sampleState :: server_state where
  "sampleState = \<lparr>cachedDomains = sampleCache, domainRotationIndex = 5, mailboxes = Map.empty\<rparr>"

text \<open>A registered mailbox, and the registry that holds it.\<close>

definition sampleMailbox :: mailbox where
  "sampleMailbox =
     \<lparr>accountId = JStr ''acc-1'', address = ''qwertyuiop@mail.tm'', domain = ''mail.tm'',
      password = ''s3cretpassw0rd'', token = JStr ''jwt-1'', tokenExpiresAt = 4600000,
      refreshToken = JNull, mailboxId = ''id-1'', createdAt = 1000000, expiresAt = 1900000,
      lastMessageCount = 3\<rparr>"

definition registryState :: server_state where
  "registryState =
     \<lparr>cachedDomains = initialCache, domainRotationIndex = 0,
      mailboxes = [''id-1'' \<mapsto> sampleMailbox]\<rparr>"

definition registryStateNoToken :: server_state where
  "registryStateNoToken =
     \<lparr>cachedDomains = initialCache, domainRotationIndex = 0,
      mailboxes = [''id-1'' \<mapsto> sampleMailbox\<lparr>token := JNull\<rparr>]\<rparr>"

text \<open>The same mailbox with other credentials.\<close>

definition replaceCredentials :: "string \<Rightarrow> json \<Rightarrow> json \<Rightarrow> json \<Rightarrow> int \<Rightarrow> mailbox \<Rightarrow> mailbox" where
  "replaceCredentials pw acc tok rtok texp mb =
     mb\<lparr>password := pw, accountId := acc, token := tok, refreshToken := rtok, tokenExpiresAt := texp\<rparr>"

text \<open>
  Three domains to try, an attempt that is answered 429, an attempt whose account is
  created and authenticated, and two ways a rotation can go.
\<close>

definition sampleDomains :: "string list" where
  "sampleDomains = [''mail.tm'', ''ekii.de'', ''doer.sbs'']"

definition attempt_429 :: attempt_env where
  "attempt_429 =
     \<lparr>localPartDraws = (\<lambda>i. i), passwordDraws = (\<lambda>i. 7 * i),
      accountsEnv = (\<lambda>a. Response 429 ''{\"detail\":\"Too many requests\"}''
                            (Some (JObj [(''detail'', JStr ''Too many requests'')]))),
      tokenEnv = env_always_timeout, tokenClock = 0\<rparr>"

definition attempt_created :: attempt_env where
  "attempt_created =
     \<lparr>localPartDraws = (\<lambda>i. i), passwordDraws = (\<lambda>i. 7 * i),
      accountsEnv = (\<lambda>a. Response 201 ''{\"id\":\"acc-1\"}'' (Some (JObj [(''id'', JStr ''acc-1'')]))),
      tokenEnv = (\<lambda>a. Response 200 ''{\"token\":\"jwt-1\"}'' (Some (JObj [(''token'', JStr ''jwt-1'')]))),
      tokenClock = 1000000\<rparr>"

definition env_429_429_created :: "nat \<Rightarrow> nat \<Rightarrow> attempt_env" where
  "env_429_429_created domainOffset attempt = (if domainOffset < 2 then attempt_429 else attempt_created)"

definition env_all_429 :: "nat \<Rightarrow> nat \<Rightarrow> attempt_env" where
  "env_all_429 domainOffset attempt = attempt_429"

text \<open>
  An attempt whose \<^verbatim>\<open>POST /accounts\<close> request is answered 201 with an empty body and
  whose authentication succeeds; and a rotation where the first domain meets it and the
  other domains are answered 429.
\<close>

definition attempt_null_account :: attempt_env where
  "attempt_null_account =
     \<lparr>localPartDraws = (\<lambda>i. i), passwordDraws = (\<lambda>i. 7 * i),
      accountsEnv = (\<lambda>a. Response 201 [] None),
      tokenEnv = (\<lambda>a. Response 200 ''{\"token\":\"jwt-1\"}'' (Some (JObj [(''token'', JStr ''jwt-1'')]))),
      tokenClock = 1000000\<rparr>"

definition env_null_account_then_429 :: "nat \<Rightarrow> nat \<Rightarrow> attempt_env" where
  "env_null_account_then_429 domainOffset attempt =
     (if domainOffset = 0 then attempt_null_account else attempt_429)"

text \<open>
  An inbox with one message summary whose detail request is answered 200 with an empty
  body, and an inbox without messages whose token endpoint never answers in time.
\<close>

definition env_list_one :: "nat \<Rightarrow> outcome" where
  "env_list_one a =
     Response 200 ''{\"hydra:member\":[{\"id\":\"m1\"}]}''
       (Some (JObj [(''hydra:member'', JArr [JObj [(''id'', JStr ''m1'')]])]))"

definition env_empty_body :: "nat \<Rightarrow> outcome" where
  "env_empty_body a = Response 200 [] None"

definition messages_env_empty_detail :: messages_env where
  "messages_env_empty_detail =
     \<lparr>tokenCheckClock = 1500000, reauthEnv = env_always_timeout, reauthClock = 1500000,
      listEnv = env_list_one, detailEnv = (\<lambda>i. env_empty_body)\<rparr>"

definition messages_env_no_mail :: messages_env where
  "messages_env_no_mail =
     \<lparr>tokenCheckClock = 1500000, reauthEnv = env_always_timeout, reauthClock = 1500000,
      listEnv = env_catalog_empty, detailEnv = (\<lambda>i. env_empty_body)\<rparr>"

text \<open>An inbox with three message summaries, where the detail request of the second is answered 404.\<close>

definition sampleMessage :: json where
  "sampleMessage =
     JObj [(''id'', JStr ''m1''), (''from'', JObj [(''address'', JStr ''a@b.c''), (''name'', JStr ''A'')]),
           (''subject'', JStr []), (''intro'', JStr ''Hello''),
           (''html'', JArr [JStr ''<p>Hello'', JStr ''</p>'']), (''seen'', JBool False),
           (''createdAt'', JStr ''2024-01-01T00:00:00+00:00'')]"

definition env_list_three :: "nat \<Rightarrow> outcome" where
  "env_list_three a =
     Response 200 ''{\"hydra:member\":[{\"id\":\"m1\"},{\"id\":\"m2\"},{\"id\":\"m3\"}]}''
       (Some (JObj [(''hydra:member'',
                     JArr [JObj [(''id'', JStr ''m1'')], JObj [(''id'', JStr ''m2'')], JObj [(''id'', JStr ''m3'')]])]))"

definition env_detail_second_fails :: "nat \<Rightarrow> nat \<Rightarrow> outcome" where
  "env_detail_second_fails i a =
     (if i = 1 then Response 404 ''{\"detail\":\"Not Found\"}'' (Some (JObj [(''detail'', JStr ''Not Found'')]))
      else Response 200 ''{\"id\":\"m1\"}'' (Some sampleMessage))"

definition messages_env_one_of_three_fails :: messages_env where
  "messages_env_one_of_three_fails =
     \<lparr>tokenCheckClock = 1500000, reauthEnv = env_always_timeout, reauthClock = 1500000,
      listEnv = env_list_three, detailEnv = env_detail_second_fails\<rparr>"

section \<open>Retry policy of the upstream client\<close>

lemma mailTmRequest_retry:
  "retried (env r) \<Longrightarrow> r < m \<Longrightarrow>
   mailTmRequest env r m = (backoffDelay r # fst (mailTmRequest env (Suc r) m), snd (mailTmRequest env (Suc r) m))"
  by (subst mailTmRequest.simps) (auto simp: retried_def Let_def split: outcome.splits prod.splits)

lemma mailTmRequest_stop:
  "\<not> (retried (env r) \<and> r < m) \<Longrightarrow> fst (mailTmRequest env r m) = []"
  by (subst mailTmRequest.simps) (auto simp: retried_def Let_def split: outcome.splits prod.splits)


lemma mailTmRequest_retries_bound:
  "r + length (fst (mailTmRequest env r m)) \<le> max r m"
proof (induction "m - r" arbitrary: r)
  case 0
  then show ?case by (simp add: mailTmRequest_stop)
next
  case (Suc k)
  show ?case
  proof (cases "retried (env r)")
    case True
    have "Suc r + length (fst (mailTmRequest env (Suc r) m)) \<le> max (Suc r) m"
      using Suc.hyps by (intro Suc.hyps(1)) simp
    then show ?thesis using True Suc.hyps(2) by (simp add: mailTmRequest_retry)
  next
    case False
    then show ?thesis by (simp add: mailTmRequest_stop)
  qed
qed

lemma mailTmRequest_delays:
  "fst (mailTmRequest env r m) = map backoffDelay [r ..< r + length (fst (mailTmRequest env r m))]"
proof (induction "m - r" arbitrary: r)
  case 0
  then show ?case by (simp add: mailTmRequest_stop)
next
  case (Suc k)
  show ?case
  proof (cases "retried (env r)")
    case True
    have ih: "fst (mailTmRequest env (Suc r) m)
        = map backoffDelay [Suc r ..< Suc r + length (fst (mailTmRequest env (Suc r) m))]"
      using Suc.hyps by (intro Suc.hyps(1)) simp
    have "r < m" using Suc.hyps(2) by simp
    then have eq: "fst (mailTmRequest env r m) = backoffDelay r # fst (mailTmRequest env (Suc r) m)"
      using True by (simp add: mailTmRequest_retry)
    have "[r ..< r + length (fst (mailTmRequest env r m))]
        = r # [Suc r ..< Suc r + length (fst (mailTmRequest env (Suc r) m))]"
      unfolding eq using upt_conv_Cons[of r "Suc r + length (fst (mailTmRequest env (Suc r) m))"]
      by simp
    then have "map backoffDelay [r ..< r + length (fst (mailTmRequest env r m))]
        = backoffDelay r # map backoffDelay [Suc r ..< Suc r + length (fst (mailTmRequest env (Suc r) m))]"
      by (simp only: list.map)
    then show ?thesis using ih eq by (simp only:)
  next
    case False
    then show ?thesis by (simp add: mailTmRequest_stop)
  qed
qed

lemma mailTmRequest_retried_before:
  "r \<le> a \<Longrightarrow> a < r + length (fst (mailTmRequest env r m)) \<Longrightarrow> retried (env a)"
proof (induction "m - r" arbitrary: r)
  case 0
  then show ?case by (simp add: mailTmRequest_stop)
next
  case (Suc k)
  show ?case
  proof (cases "retried (env r)")
    case True
    have "r < m" using Suc.hyps(2) by simp
    then have eq: "fst (mailTmRequest env r m) = backoffDelay r # fst (mailTmRequest env (Suc r) m)"
      using True by (simp add: mailTmRequest_retry)
    show ?thesis
    proof (cases "a = r")
      case True
      then show ?thesis using \<open>retried (env r)\<close> by simp
    next
      case False
      then have "Suc r \<le> a" "a < Suc r + length (fst (mailTmRequest env (Suc r) m))"
        using Suc.prems eq by simp_all
      moreover have "k = m - Suc r" using Suc.hyps(2) by simp
      ultimately show ?thesis using Suc.hyps(1) by blast
    qed
  next
    case False
    then show ?thesis using Suc.prems by (simp add: mailTmRequest_stop)
  qed
qed

lemma mailTmRequest_stops_at:
  "r + length (fst (mailTmRequest env r m)) < m \<Longrightarrow>
   \<not> retried (env (r + length (fst (mailTmRequest env r m))))"
proof (induction "m - r" arbitrary: r)
  case 0
  then show ?case by simp
next
  case (Suc k)
  show ?case
  proof (cases "retried (env r)")
    case True
    have "r < m" using Suc.hyps(2) by simp
    then have eq: "fst (mailTmRequest env r m) = backoffDelay r # fst (mailTmRequest env (Suc r) m)"
      using True by (simp add: mailTmRequest_retry)
    have "k = m - Suc r" using Suc.hyps(2) by simp
    moreover have "Suc r + length (fst (mailTmRequest env (Suc r) m)) < m"
      using Suc.prems eq by simp
    ultimately have "\<not> retried (env (Suc r + length (fst (mailTmRequest env (Suc r) m))))"
      using Suc.hyps(1) by blast
    then show ?thesis using eq by simp
  next
    case False
    then show ?thesis by (simp add: mailTmRequest_stop)
  qed
qed

lemma retried_iff:
  "httpStatusOk oc \<Longrightarrow> retried oc \<longleftrightarrow> is5xx oc \<or> isNetworkOrTimeout oc"
  by (auto simp: httpStatusOk_def retried_def is5xx_def isNetworkOrTimeout_def response_ok_def
      split: outcome.splits)

text \<open>
  Claim C7. A call of \<^verbatim>\<open>mailTmRequest\<close> with the defaults (\<^verbatim>\<open>retries = 0\<close>,
  \<^verbatim>\<open>maxRetries = 3\<close>) makes attempts \<open>0 .. n\<close>, where \<open>n\<close> is the number of delays it
  slept. For every attempt \<open>a\<close> it made, a retry follows (\<open>a < n\<close>) exactly when the
  outcome of \<open>a\<close> is a 5xx response or a network/timeout failure and fewer than 3 retries
  have been used; a 4xx response is always the last attempt; the delay slept before
  retry number \<open>a\<close> is \<open>min (1000 * 2 ^ a) 5000\<close> milliseconds; there are at most 3
  retries. Statuses are HTTP status codes (at most 599).
\<close>

theorem C7_retry_policy:
  assumes "\<forall>a. httpStatusOk (env a)"
  shows "(\<forall>a \<le> length (fst (mailTmRequest env 0 3)).
           (a < length (fst (mailTmRequest env 0 3))
              \<longleftrightarrow> (is5xx (env a) \<or> isNetworkOrTimeout (env a)) \<and> a < 3)
           \<and> (is4xx (env a) \<longrightarrow> a = length (fst (mailTmRequest env 0 3))))
    \<and> fst (mailTmRequest env 0 3)
           = map (\<lambda>attempt. min (1000 * 2 ^ attempt) 5000) [0 ..< length (fst (mailTmRequest env 0 3))]
    \<and> length (fst (mailTmRequest env 0 3)) \<le> 3"
proof -
  let ?n = "length (fst (mailTmRequest env 0 3))"
  have n3: "?n \<le> 3" using mailTmRequest_retries_bound[of 0 env 3] by simp
  have d: "fst (mailTmRequest env 0 3) = map backoffDelay [0 ..< ?n]"
    using mailTmRequest_delays[of env 0 3] by simp
  have bd: "backoffDelay = (\<lambda>attempt. min (1000 * 2 ^ attempt) 5000)"
    by (rule ext) (simp add: backoffDelay_def)
  have d': "fst (mailTmRequest env 0 3) = map (\<lambda>attempt. min (1000 * 2 ^ attempt) 5000) [0 ..< ?n]"
    using d unfolding bd .
  have main: "\<forall>a \<le> ?n. (a < ?n \<longleftrightarrow> (is5xx (env a) \<or> isNetworkOrTimeout (env a)) \<and> a < 3)
           \<and> (is4xx (env a) \<longrightarrow> a = ?n)"
  proof (intro allI impI)
    fix a assume le: "a \<le> ?n"
    have r: "retried (env a) \<longleftrightarrow> is5xx (env a) \<or> isNetworkOrTimeout (env a)"
      using assms retried_iff by blast
    have fwd: "a < ?n \<Longrightarrow> retried (env a) \<and> a < 3"
      using mailTmRequest_retried_before[of 0 a env 3] n3 by simp
    have bwd: "retried (env a) \<and> a < 3 \<Longrightarrow> a < ?n"
    proof (rule ccontr)
      assume h: "retried (env a) \<and> a < 3" and "\<not> a < ?n"
      then have "a = ?n" using le by simp
      then show False using mailTmRequest_stops_at[of 0 env 3] h by simp
    qed
    have no4: "is4xx (env a) \<Longrightarrow> \<not> retried (env a)"
      by (auto simp: is4xx_def retried_def split: outcome.splits)
    show "(a < ?n \<longleftrightarrow> (is5xx (env a) \<or> isNetworkOrTimeout (env a)) \<and> a < 3)
           \<and> (is4xx (env a) \<longrightarrow> a = ?n)"
      using fwd bwd no4 le r by (metis le_neq_implies_less)
  qed
  show ?thesis using main d' n3 by blast
qed

lemma env_503_network_404_run:
  "mailTmRequest env_503_network_404 0 3 = ([1000, 2000], Inl (HttpError 404 (JObj [])))"
  by (simp add: mailTmRequest.simps env_503_network_404_def response_ok_def backoffDelay_def)

theorem C7_retry_policy_witness:
  "(\<forall>a. httpStatusOk (env_503_network_404 a))
   \<and> fst (mailTmRequest env_503_network_404 0 3) = [1000, 2000]
   \<and> length (fst (mailTmRequest env_503_network_404 0 3)) = 2
   \<and> is5xx (env_503_network_404 0)
   \<and> isNetworkOrTimeout (env_503_network_404 1)
   \<and> is4xx (env_503_network_404 2)"
proof -
  have h: "\<forall>a. httpStatusOk (env_503_network_404 a)"
    by (simp add: httpStatusOk_def env_503_network_404_def)
  have n: "length (fst (mailTmRequest env_503_network_404 0 3)) = 2"
    by (simp add: env_503_network_404_run)
  have e: "is5xx (env_503_network_404 0)" "isNetworkOrTimeout (env_503_network_404 1)"
    "is4xx (env_503_network_404 2)"
    by (simp_all add: env_503_network_404_def is5xx_def is4xx_def isNetworkOrTimeout_def)
  show ?thesis using h n e C7_retry_policy[OF h]
    by (simp add: env_503_network_404_run)
qed

lemma mailTmRequest_all_timeouts:
  assumes "\<forall>a \<le> 3. env a = Rejected ''AbortError''"
  shows "mailTmRequest env 0 3 = ([1000, 2000, 4000], Inl (FetchRejection ''AbortError''))"
proof -
  have e: "env (Suc (Suc (Suc 0))) = Rejected ''AbortError''"
    using assms by (simp add: numeral_3_eq_3)
  have "\<And>a. a \<le> 3 \<Longrightarrow> retried (env a)"
    using assms by (simp add: retried_def)
  then have rt: "retried (env 0)" "retried (env (Suc 0))" "retried (env (Suc (Suc 0)))"
    by simp_all
  have r3: "mailTmRequest env (Suc (Suc (Suc 0))) 3 = ([], Inl (FetchRejection ''AbortError''))"
    by (subst mailTmRequest.simps) (simp add: e)
  have r2: "mailTmRequest env (Suc (Suc 0)) 3 = ([4000], Inl (FetchRejection ''AbortError''))"
    using mailTmRequest_retry[of env "Suc (Suc 0)" 3] rt(3) r3 by (simp add: backoffDelay_def)
  have r1: "mailTmRequest env (Suc 0) 3 = ([2000, 4000], Inl (FetchRejection ''AbortError''))"
    using mailTmRequest_retry[of env "Suc 0" 3] rt(2) r2 by (simp add: backoffDelay_def)
  show ?thesis
    using mailTmRequest_retry[of env 0 3] rt(1) r1 by (simp add: backoffDelay_def)
qed

text \<open>
  Claim C3, as the code has it. When every attempt of a request runs into the time
  ceiling (\<^verbatim>\<open>fetch\<close> rejects with the \<^verbatim>\<open>AbortError\<close> each time), the call sleeps
  1000, 2000 and 4000 ms, makes four attempts in all, and then rejects with the
  \<^verbatim>\<open>AbortError\<close> itself, rethrown unchanged: its name is \<^verbatim>\<open>AbortError\<close> and it has no
  \<^verbatim>\<open>status\<close> field (the code never attaches one, and never builds a status
  \<^verbatim>\<open>"timeout"\<close>).
\<close>

theorem C3_timeout_rethrows_abort_error:
  assumes "\<forall>a \<le> 3. env a = Rejected ''AbortError''"
  shows "\<exists>e. mailTmRequest env 0 3 = ([1000, 2000, 4000], Inl e)
           \<and> err_name e = ''AbortError'' \<and> err_status e = JNull"
  using mailTmRequest_all_timeouts[OF assms] by simp

theorem C3_timeout_rethrows_abort_error_witness:
  "(\<forall>a. env_always_timeout a = Rejected ''AbortError'')
   \<and> (\<exists>e. mailTmRequest env_always_timeout 0 3 = ([1000, 2000, 4000], Inl e)
           \<and> err_name e = ''AbortError'' \<and> err_status e = JNull)"
proof -
  have h: "\<forall>a \<le> 3. env_always_timeout a = Rejected ''AbortError''"
    by (simp add: env_always_timeout_def)
  have "\<forall>a. env_always_timeout a = Rejected ''AbortError''"
    by (simp add: env_always_timeout_def)
  then show ?thesis using C3_timeout_rethrows_abort_error[OF h] by blast
qed

text \<open>
  Claim C3 as stated fails: on a host that never answers in time the error the call
  fails with is the \<^verbatim>\<open>AbortError\<close>, and its \<^verbatim>\<open>status\<close> is not \<^verbatim>\<open>"timeout"\<close>.
\<close>

theorem C3_status_timeout_counterexample:
  "snd (mailTmRequest env_always_timeout 0 3) = Inl (FetchRejection ''AbortError'')
   \<and> err_status (FetchRejection ''AbortError'') \<noteq> JStr ''timeout''"
  by (simp add: mailTmRequest.simps env_always_timeout_def backoffDelay_def)

section \<open>Round-robin pick\<close>

text \<open>
  Claim C1. When \<^verbatim>\<open>pickMailTmDomain\<close> is called without a preferred domain and the
  catalog yields at least one domain string, the candidates are the preferred subset when
  it is non-empty and the full list of domain strings otherwise; with \<open>L\<close> their number
  and \<open>C\<close> the cursor \<^verbatim>\<open>domainRotationIndex\<close> before the call, the call returns the
  candidate at index \<open>C mod L\<close> and leaves the cursor at \<open>(C + 1) mod L\<close>.
\<close>

theorem C1_rotation_pick:
  assumes "getAvailableDomains now env (cachedDomains st) = (Inr domains, cache)"
    and "listDomainStrings domains \<noteq> []"
    and "\<not> truthy preferredDomain"
  shows "(let preferred = filter (\<lambda>d. toLowerCase d \<in> set DEFAULT_PREFERRED_DOMAINS) (listDomainStrings domains);
              candidates = (if preferred \<noteq> [] then preferred else listDomainStrings domains);
              C = domainRotationIndex st;
              L = length candidates
          in 0 < L
             \<and> fst (pickMailTmDomain now env preferredDomain st) = Inr (candidates ! (C mod L))
             \<and> domainRotationIndex (snd (pickMailTmDomain now env preferredDomain st)) = (C + 1) mod L)"
proof -
  have ne: "domains \<noteq> []"
    using assms(2) by (auto simp: listDomainStrings_def List.map_filter_simps)
  show ?thesis
    using assms ne by (simp add: pickMailTmDomain_def Let_def)
qed

lemma sampleState_cached:
  "getAvailableDomains 2000 env_always_timeout (cachedDomains sampleState)
     = (Inr sampleCatalog, cachedDomains sampleState)"
  by (simp add: getAvailableDomains_def sampleState_def sampleCache_def sampleCatalog_def)

lemma sampleCatalog_strings:
  "listDomainStrings sampleCatalog = [''mail.tm'', ''Ekii.de'', ''other.org'']"
  by (simp add: listDomainStrings_def sampleCatalog_def normalizeDomainEntry_def js_or_def
      List.map_filter_simps)

lemma sampleCatalog_lower:
  "toLowerCase ''Ekii.de'' = ''ekii.de''"
  "toLowerCase ''mail.tm'' = ''mail.tm''"
  "toLowerCase ''other.org'' = ''other.org''"
  by (simp_all add: toLowerCase_def lowerChar_def)

theorem C1_rotation_pick_witness:
  "getAvailableDomains 2000 env_always_timeout (cachedDomains sampleState)
     = (Inr sampleCatalog, cachedDomains sampleState)
   \<and> listDomainStrings sampleCatalog \<noteq> []
   \<and> \<not> truthy JNull
   \<and> fst (pickMailTmDomain 2000 env_always_timeout JNull sampleState) = Inr ''Ekii.de''
   \<and> domainRotationIndex (snd (pickMailTmDomain 2000 env_always_timeout JNull sampleState)) = 0"
proof -
  have a: "listDomainStrings sampleCatalog \<noteq> []" by (simp add: sampleCatalog_strings)
  have b: "\<not> truthy JNull" by simp
  have i: "domainRotationIndex sampleState = 5" by (simp add: sampleState_def)
  show ?thesis
    using C1_rotation_pick[OF sampleState_cached a b] sampleState_cached a
    by (simp add: Let_def sampleCatalog_strings sampleCatalog_lower DEFAULT_PREFERRED_DOMAINS_def i
        numeral_2_eq_2[symmetric])
qed

section \<open>Catalog cache\<close>

lemma timeout_request_fails:
  "snd (mailTmRequest env_always_timeout 0 3) = Inl (FetchRejection ''AbortError'')"
  using mailTmRequest_all_timeouts[of env_always_timeout] by (simp add: env_always_timeout_def)

lemma catalog_ok_request:
  "snd (mailTmRequest env_catalog_ok 0 3) = Inr (JObj [(''hydra:member'', JArr sampleCatalog)])"
  by (simp add: mailTmRequest.simps env_catalog_ok_def response_ok_def)

lemma catalog_empty_request:
  "snd (mailTmRequest env_catalog_empty 0 3) = Inr (JObj [(''hydra:member'', JArr [])])"
  by (simp add: mailTmRequest.simps env_catalog_empty_def response_ok_def)

text \<open>
  Claim C4, as the code has it. \<^verbatim>\<open>getAvailableDomains\<close> throws the error \<open>e\<close> exactly
  when the list of cached items is empty at the call (nothing was ever stored, or the
  last successful fetch stored an empty list) and the request of \<^verbatim>\<open>/domains\<close> fails
  with \<open>e\<close>. Whenever the cached list is non-empty, a failed refresh returns the cached
  items and leaves the cache as it is, whatever \<^verbatim>\<open>expiresAt\<close> and the clock say.
\<close>

theorem C4_catalog_raises_iff_cache_empty:
  "(fst (getAvailableDomains now env cache) = Inl e
      \<longleftrightarrow> cache_items cache = [] \<and> snd (mailTmRequest env 0 3) = Inl e)
   \<and> (cache_items cache \<noteq> [] \<longrightarrow> snd (mailTmRequest env 0 3) = Inl e
        \<longrightarrow> getAvailableDomains now env cache = (Inr (cache_items cache), cache))"
  by (auto simp: getAvailableDomains_def Let_def split: sum.splits)

theorem C4_catalog_raises_iff_cache_empty_witness:
  "cache_items sampleCache \<noteq> []
   \<and> snd (mailTmRequest env_always_timeout 0 3) = Inl (FetchRejection ''AbortError'')
   \<and> cache_expiresAt sampleCache < 700000
   \<and> getAvailableDomains 700000 env_always_timeout sampleCache
        = (Inr (cache_items sampleCache), sampleCache)"
proof -
  have a: "cache_items sampleCache \<noteq> []" by (simp add: sampleCache_def sampleCatalog_def)
  have b: "cache_expiresAt sampleCache < 700000" by (simp add: sampleCache_def)
  show ?thesis
    using a b timeout_request_fails
      C4_catalog_raises_iff_cache_empty[of 700000 env_always_timeout sampleCache
        "FetchRejection ''AbortError''"]
    by blast
qed

text \<open>
  Claim C4 as stated (an error only when no cache has ever been populated) fails. Three
  calls from the initial state: the first fetch succeeds and stores three domains; after
  the ten minutes the second fetch succeeds with an empty member list, which replaces the
  stored domains; the third fetch times out and the call throws, although a cache had
  been populated by the first call.
\<close>

theorem C4_ever_populated_counterexample:
  "getAvailableDomains 1000 env_catalog_ok initialCache = (Inr sampleCatalog, sampleCache)
   \<and> getAvailableDomains 700000 env_catalog_empty sampleCache = (Inr [], emptiedCache)
   \<and> getAvailableDomains 700001 env_always_timeout emptiedCache
        = (Inl (FetchRejection ''AbortError''), emptiedCache)"
  by (simp add: getAvailableDomains_def catalog_ok_request catalog_empty_request
      timeout_request_fails initialCache_def sampleCache_def emptiedCache_def memberList_def
      js_or_def DOMAIN_CACHE_TTL_MS_def sampleCatalog_def Let_def)

section \<open>Priority reordering of the domains to try\<close>

text \<open>\<^verbatim>\<open>findIndex\<close>, \<^verbatim>\<open>splice\<close> and \<^verbatim>\<open>unshift\<close> in terms of the first match.\<close>

lemma findIndex_none: "find p xs = None \<Longrightarrow> findIndex p xs = - 1"
  by (induction xs) (auto simp: Let_def split: if_splits)

lemma findIndex_some:
  "find p xs = Some x \<Longrightarrow>
     0 \<le> findIndex p xs \<and> xs ! nat (findIndex p xs) = x
     \<and> take (nat (findIndex p xs)) xs @ drop (nat (findIndex p xs) + 1) xs = removeFirst p xs"
proof (induction xs)
  case Nil
  then show ?case by simp
next
  case (Cons y ys)
  show ?case
  proof (cases "p y")
    case True
    then show ?thesis using Cons.prems by simp
  next
    case False
    then have f: "find p ys = Some x" using Cons.prems by simp
    have ih: "0 \<le> findIndex p ys" "ys ! nat (findIndex p ys) = x"
      "take (nat (findIndex p ys)) ys @ drop (nat (findIndex p ys) + 1) ys = removeFirst p ys"
      using Cons.IH[OF f] by simp_all
    have n: "nat (findIndex p ys + 1) = Suc (nat (findIndex p ys))" using ih(1) by simp
    show ?thesis using False ih by (simp add: Let_def n)
  qed
qed

lemma moveToFront_conv:
  "moveToFront name xs =
     (case find (named name) xs of None \<Rightarrow> xs | Some x \<Rightarrow> x # removeFirst (named name) xs)"
proof (cases "find (named name) xs")
  case None
  have "findIndex (\<lambda>d. toLowerCase d = name) xs = - 1"
    using findIndex_none[of "named name" xs] None by (simp add: named_def[abs_def])
  then show ?thesis using None by (simp add: moveToFront_def)
next
  case (Some x)
  have "0 \<le> findIndex (\<lambda>d. toLowerCase d = name) xs \<and> xs ! nat (findIndex (\<lambda>d. toLowerCase d = name) xs) = x
     \<and> take (nat (findIndex (\<lambda>d. toLowerCase d = name) xs)) xs @ drop (nat (findIndex (\<lambda>d. toLowerCase d = name) xs) + 1) xs
         = removeFirst (named name) xs"
    using findIndex_some[of "named name" xs x] Some by (simp add: named_def[abs_def])
  then show ?thesis using Some by (simp add: moveToFront_def Let_def)
qed

lemma removeFirst_absent: "find p xs = None \<Longrightarrow> removeFirst p xs = xs"
  by (induction xs) (auto split: if_splits)

lemma find_removeFirst_other:
  "(\<And>x. p x \<Longrightarrow> \<not> q x) \<Longrightarrow> find q (removeFirst p xs) = find q xs"
  by (induction xs) auto

lemma removeFirst_commute:
  "(\<And>x. p x \<Longrightarrow> \<not> q x) \<Longrightarrow> removeFirst p (removeFirst q xs) = removeFirst q (removeFirst p xs)"
  by (induction xs) auto

lemma named_disjoint: "m \<noteq> n \<Longrightarrow> named m x \<Longrightarrow> \<not> named n x"
  by (simp add: named_def)

lemma find_named: "find (named n) xs = Some x \<Longrightarrow> named n x"
  by (induction xs) (auto split: if_splits)

lemma find_moveToFront: "find (named p) (moveToFront n xs) = find (named p) xs"
proof (cases "find (named n) xs")
  case None
  then show ?thesis by (simp add: moveToFront_conv)
next
  case (Some x)
  have nx: "named n x" using Some by (rule find_named)
  show ?thesis
  proof (cases "p = n")
    case True
    then show ?thesis using Some nx by (simp add: moveToFront_conv)
  next
    case False
    have "\<not> named p x" using named_disjoint[OF False[symmetric] nx] .
    moreover have "find (named p) (removeFirst (named n) xs) = find (named p) xs"
      by (rule find_removeFirst_other) (use False named_disjoint in blast)
    ultimately show ?thesis using Some by (simp add: moveToFront_conv)
  qed
qed

lemma find_fold_moveToFront: "find (named p) (fold moveToFront ns xs) = find (named p) xs"
  by (induction ns arbitrary: xs) (simp_all add: find_moveToFront)

lemma removeFirst_moveToFront_same:
  "removeFirst (named n) (moveToFront n xs) = removeFirst (named n) xs"
proof (cases "find (named n) xs")
  case None
  then show ?thesis by (simp add: moveToFront_conv)
next
  case (Some x)
  then show ?thesis using find_named[OF Some] by (simp add: moveToFront_conv)
qed

lemma removeFirst_moveToFront_other:
  assumes "m \<noteq> n"
  shows "removeFirst (named m) (moveToFront n xs) = moveToFront n (removeFirst (named m) xs)"
proof -
  have d: "\<And>x. named m x \<Longrightarrow> \<not> named n x" using assms named_disjoint by blast
  have d': "\<And>x. named n x \<Longrightarrow> \<not> named m x" using assms named_disjoint by blast
  have f: "find (named n) (removeFirst (named m) xs) = find (named n) xs"
    by (rule find_removeFirst_other) (rule d)
  show ?thesis
  proof (cases "find (named n) xs")
    case None
    then show ?thesis using f by (simp add: moveToFront_conv)
  next
    case (Some x)
    have "\<not> named m x" using d'[OF find_named[OF Some]] .
    moreover have "removeFirst (named m) (removeFirst (named n) xs)
        = removeFirst (named n) (removeFirst (named m) xs)"
      by (rule removeFirst_commute) (rule d)
    ultimately show ?thesis using Some f by (simp add: moveToFront_conv)
  qed
qed

lemma removeFirsts_Nil: "removeFirsts [] xs = xs"
  by (simp add: removeFirsts_def)

lemma removeFirsts_Cons: "removeFirsts (m # ms) xs = removeFirsts ms (removeFirst (named m) xs)"
  by (simp add: removeFirsts_def)

lemma removeFirsts_moveToFront:
  "removeFirsts ns (moveToFront n xs)
     = (if n \<in> set ns then removeFirsts ns xs else moveToFront n (removeFirsts ns xs))"
proof (induction ns arbitrary: xs)
  case Nil
  then show ?case by (simp add: removeFirsts_Nil)
next
  case (Cons m ms)
  show ?case
  proof (cases "m = n")
    case True
    then show ?thesis by (simp add: removeFirsts_Cons removeFirst_moveToFront_same)
  next
    case False
    then show ?thesis
      by (simp add: removeFirsts_Cons removeFirst_moveToFront_other Cons.IH)
  qed
qed

lemma removeFirsts_fold_moveToFront:
  "set ms \<subseteq> set ns \<Longrightarrow> removeFirsts ns (fold moveToFront ms xs) = removeFirsts ns xs"
  by (induction ms arbitrary: xs) (simp_all add: removeFirsts_moveToFront)

text \<open>The nine moves together: the first occurrences of the names, last moved first, then the rest.\<close>

lemma firstOccurrences_Nil: "firstOccurrences [] xs = []"
  by (simp add: firstOccurrences_def List.map_filter_simps)

lemma firstOccurrences_Cons:
  "firstOccurrences (n # ns) xs =
     (case find (named n) xs of None \<Rightarrow> firstOccurrences ns xs | Some x \<Rightarrow> x # firstOccurrences ns xs)"
  by (simp add: firstOccurrences_def List.map_filter_simps split: option.splits)

lemma firstOccurrences_named:
  "x \<in> set (firstOccurrences ps xs) \<Longrightarrow> \<exists>p \<in> set ps. named p x"
proof (induction ps)
  case Nil
  then show ?case by (simp add: firstOccurrences_Nil)
next
  case (Cons q qs)
  then show ?case
    by (auto simp: firstOccurrences_Cons split: option.splits dest: find_named)
qed

lemma removeFirst_append:
  "\<forall>x \<in> set fs. \<not> p x \<Longrightarrow> removeFirst p (fs @ rs) = fs @ removeFirst p rs"
  by (induction fs) auto

lemma find_append_none: "find p (fs @ rs) = None \<Longrightarrow> find p rs = None"
  by (induction fs) (auto split: if_splits)

lemma removeFirsts_snoc: "removeFirsts (ns @ [n]) xs = removeFirst (named n) (removeFirsts ns xs)"
  by (simp add: removeFirsts_def)

lemma fold_moveToFront_conv:
  "distinct ns \<Longrightarrow> fold moveToFront ns xs = firstOccurrences (rev ns) xs @ removeFirsts ns xs"
proof (induction ns rule: rev_induct)
  case Nil
  then show ?case by (simp add: firstOccurrences_Nil removeFirsts_Nil)
next
  case (snoc n ns)
  let ?F = "firstOccurrences (rev ns) xs"
  let ?R = "removeFirsts ns xs"
  have dn: "distinct ns" and nn: "n \<notin> set ns" using snoc.prems by simp_all
  have ih: "fold moveToFront ns xs = ?F @ ?R" using snoc.IH[OF dn] .
  have fnd: "find (named n) (?F @ ?R) = find (named n) xs"
    using find_fold_moveToFront[of n ns xs] ih by simp
  have noF: "\<forall>x \<in> set ?F. \<not> named n x"
  proof
    fix x assume "x \<in> set ?F"
    then obtain p where "p \<in> set (rev ns)" "named p x" using firstOccurrences_named by blast
    then show "\<not> named n x" using nn named_disjoint[of p n x] by auto
  qed
  have step: "fold moveToFront (ns @ [n]) xs = moveToFront n (?F @ ?R)"
    using ih by simp
  show ?case
  proof (cases "find (named n) xs")
    case None
    have "find (named n) ?R = None" using fnd None find_append_none by metis
    then have r: "removeFirst (named n) ?R = ?R" by (rule removeFirst_absent)
    have "moveToFront n (?F @ ?R) = ?F @ ?R"
      using None fnd by (simp add: moveToFront_conv)
    then show ?thesis unfolding step using None r
      by (simp add: firstOccurrences_Cons removeFirsts_snoc)
  next
    case (Some x)
    have "removeFirst (named n) (?F @ ?R) = ?F @ removeFirst (named n) ?R"
      using noF by (rule removeFirst_append)
    then have "moveToFront n (?F @ ?R) = x # ?F @ removeFirst (named n) ?R"
      using Some fnd by (simp add: moveToFront_conv)
    then show ?thesis unfolding step using Some
      by (simp add: firstOccurrences_Cons removeFirsts_snoc)
  qed
qed

lemma find_filter_conv: "find p xs = (case filter p xs of [] \<Rightarrow> None | y # ys \<Rightarrow> Some y)"
  by (induction xs) auto

lemma filter_named_sort:
  "filter (named p) (sortDomains ckey xs) = filter (named p) xs"
proof -
  let ?k = "\<lambda>d. ckey (toLowerCase d)"
  have nk: "\<And>ys. filter (named p) ys = filter (named p) (filter (\<lambda>y. ?k y = ckey p) ys)"
    by (auto simp: named_def intro: filter_cong)
  have "filter (named p) (sort_key ?k xs) = filter (named p) (filter (\<lambda>y. ?k y = ckey p) (sort_key ?k xs))"
    by (rule nk)
  also have "\<dots> = filter (named p) (filter (\<lambda>y. ?k y = ckey p) xs)"
    by (simp only: sort_key_stable)
  also have "\<dots> = filter (named p) xs" by (rule nk[symmetric])
  finally show ?thesis by (simp add: sortDomains_def)
qed

lemma find_named_sort: "find (named p) (sortDomains ckey xs) = find (named p) xs"
  by (simp add: find_filter_conv filter_named_sort)

lemma firstOccurrences_cong:
  "(\<And>p. find (named p) xs = find (named p) ys) \<Longrightarrow> firstOccurrences ps xs = firstOccurrences ps ys"
  by (simp add: firstOccurrences_def)

lemma removeFirst_insort_same:
  "p a \<Longrightarrow> (\<And>u. u \<in> set us \<Longrightarrow> p u \<Longrightarrow> k u = k a) \<Longrightarrow> removeFirst p (insort_key k a us) = us"
proof (induction us)
  case Nil
  then show ?case by simp
next
  case (Cons u us)
  show ?case
  proof (cases "k a \<le> k u")
    case True
    then show ?thesis using Cons.prems(1) by simp
  next
    case False
    then have "\<not> p u" using Cons.prems(2)[of u] by auto
    moreover have "removeFirst p (insort_key k a us) = us"
      using Cons.prems by (intro Cons.IH) auto
    ultimately show ?thesis using False by simp
  qed
qed

lemma insort_key_first: "sorted (map k (u # us)) \<Longrightarrow> k a \<le> k u \<Longrightarrow> insort_key k a us = a # us"
  by (cases us) auto

lemma removeFirst_insort_other:
  "\<not> p a \<Longrightarrow> sorted (map k us) \<Longrightarrow>
     removeFirst p (insort_key k a us) = insort_key k a (removeFirst p us)"
proof (induction us)
  case Nil
  then show ?case by simp
next
  case (Cons u us)
  have s: "sorted (map k us)" using Cons.prems(2) by simp
  have ih: "removeFirst p (insort_key k a us) = insort_key k a (removeFirst p us)"
    using Cons.IH[OF Cons.prems(1) s] .
  show ?case
  proof (cases "k a \<le> k u")
    case True
    show ?thesis
    proof (cases "p u")
      case pu: True
      have "insort_key k a us = a # us" using insort_key_first[OF Cons.prems(2) True] .
      then show ?thesis using True pu Cons.prems(1) by simp
    next
      case False
      then show ?thesis using True Cons.prems(1) by simp
    qed
  next
    case False
    then show ?thesis using ih by simp
  qed
qed

lemma removeFirst_named_sort:
  "removeFirst (named n) (sortDomains ckey xs) = sortDomains ckey (removeFirst (named n) xs)"
proof (induction xs)
  case Nil
  then show ?case by (simp add: sortDomains_def)
next
  case (Cons a xs)
  let ?k = "\<lambda>d. ckey (toLowerCase d)"
  have ih: "removeFirst (named n) (sort_key ?k xs) = sort_key ?k (removeFirst (named n) xs)"
    using Cons.IH by (simp add: sortDomains_def)
  show ?case
  proof (cases "named n a")
    case True
    have "removeFirst (named n) (insort_key ?k a (sort_key ?k xs)) = sort_key ?k xs"
      using True by (intro removeFirst_insort_same) (auto simp: named_def)
    then show ?thesis using True by (simp add: sortDomains_def)
  next
    case False
    have "removeFirst (named n) (insort_key ?k a (sort_key ?k xs))
        = insort_key ?k a (removeFirst (named n) (sort_key ?k xs))"
      using False by (intro removeFirst_insort_other) simp_all
    then show ?thesis using False ih by (simp add: sortDomains_def)
  qed
qed

lemma removeFirsts_sort:
  "removeFirsts ns (sortDomains ckey xs) = sortDomains ckey (removeFirsts ns xs)"
  by (induction ns arbitrary: xs) (simp_all add: removeFirsts_Nil removeFirsts_Cons removeFirst_named_sort)

lemma set_removeFirst: "set (removeFirst p xs) \<subseteq> set xs"
  by (induction xs) auto

lemma sorted_removeFirst: "sorted (map k xs) \<Longrightarrow> sorted (map k (removeFirst p xs))"
proof (induction xs)
  case Nil
  then show ?case by simp
next
  case (Cons a xs)
  have "\<And>x. x \<in> set (removeFirst p xs) \<Longrightarrow> x \<in> set xs"
    using set_removeFirst[of p xs] by blast
  then show ?case using Cons by auto
qed

lemma sorted_removeFirsts:
  "sorted (map k xs) \<Longrightarrow> sorted (map k (removeFirsts ns xs))"
  by (induction ns arbitrary: xs) (simp_all add: removeFirsts_Nil removeFirsts_Cons sorted_removeFirst)

lemma sorted_sortDomains: "sorted (map (\<lambda>d. ckey (toLowerCase d)) (sortDomains ckey xs))"
  by (simp add: sortDomains_def)

lemma sortDomains_sorted_id:
  "sorted (map (\<lambda>d. ckey (toLowerCase d)) xs) \<Longrightarrow> sortDomains ckey xs = xs"
  by (simp add: sortDomains_def sort_key_id_if_sorted)

lemma movedToFront_distinct: "distinct movedToFront"
  by (simp add: movedToFront_def)

lemma reorder_conv:
  "reorderDomainsToTry ckey xs
     = firstOccurrences priorityOrder xs @ removeFirsts movedToFront (sortDomains ckey xs)"
proof -
  have "firstOccurrences priorityOrder (sortDomains ckey xs) = firstOccurrences priorityOrder xs"
    by (rule firstOccurrences_cong) (rule find_named_sort)
  then show ?thesis
    using fold_moveToFront_conv[OF movedToFront_distinct, of "sortDomains ckey xs"]
    by (simp add: reorderDomainsToTry_def priorityOrder_def)
qed

lemma reorder_idempotent:
  "reorderDomainsToTry ckey (reorderDomainsToTry ckey xs) = reorderDomainsToTry ckey xs"
proof -
  let ?ys = "sortDomains ckey xs"
  let ?zs = "reorderDomainsToTry ckey xs"
  have z: "?zs = fold moveToFront movedToFront ?ys" by (simp add: reorderDomainsToTry_def)
  have f: "firstOccurrences priorityOrder ?zs = firstOccurrences priorityOrder xs"
  proof (rule firstOccurrences_cong)
    fix p
    show "find (named p) ?zs = find (named p) xs"
      unfolding z by (simp add: find_fold_moveToFront find_named_sort)
  qed
  have "removeFirsts movedToFront (sortDomains ckey ?zs)
        = sortDomains ckey (removeFirsts movedToFront ?zs)"
    by (rule removeFirsts_sort)
  also have "removeFirsts movedToFront ?zs = removeFirsts movedToFront ?ys"
    unfolding z by (rule removeFirsts_fold_moveToFront) simp
  also have "sortDomains ckey (removeFirsts movedToFront ?ys) = removeFirsts movedToFront ?ys"
    by (intro sortDomains_sorted_id sorted_removeFirsts sorted_sortDomains)
  finally have r: "removeFirsts movedToFront (sortDomains ckey ?zs)
        = removeFirsts movedToFront ?ys" .
  show ?thesis
    using reorder_conv[of ckey ?zs] reorder_conv[of ckey xs] f r by simp
qed

lemma lower_firstOccurrences:
  "map toLowerCase (firstOccurrences ps xs) = filter (\<lambda>p. p \<in> toLowerCase ` set xs) ps"
proof (induction ps)
  case Nil
  then show ?case by (simp add: firstOccurrences_Nil)
next
  case (Cons q qs)
  show ?case
  proof (cases "find (named q) xs")
    case None
    then have "q \<notin> toLowerCase ` set xs"
      by (auto simp: find_None_iff named_def)
    then show ?thesis using None Cons.IH by (simp add: firstOccurrences_Cons)
  next
    case (Some x)
    then have "named q x" "x \<in> set xs" by (auto simp: find_Some_iff named_def)
    then have "q \<in> toLowerCase ` set xs" "toLowerCase x = q" by (auto simp: named_def)
    then show ?thesis using Some Cons.IH by (simp add: firstOccurrences_Cons)
  qed
qed

text \<open>
  All nine moves: the output starts with the first occurrences of the nine names that
  occur in the input, \<^verbatim>\<open>mail.tm\<close> first and \<^verbatim>\<open>comfythings.com\<close> last, and what follows
  is in collation order.
\<close>

lemma reorder_priority_block:
  "priorityOrder = [''mail.tm'', ''elyxstore.com'', ''ketoblisslabs.com'', ''ekii.de'', ''doer.sbs'',
                    ''asia-mail.com'', ''besenica.com'', ''badfist.com'', ''comfythings.com'']
   \<and> (\<exists>rest. reorderDomainsToTry ckey xs = firstOccurrences priorityOrder xs @ rest
          \<and> sorted (map (\<lambda>d. ckey (toLowerCase d)) rest))
   \<and> map toLowerCase (firstOccurrences priorityOrder xs)
       = filter (\<lambda>p. p \<in> toLowerCase ` set xs) priorityOrder"
proof -
  have b: "priorityOrder = [''mail.tm'', ''elyxstore.com'', ''ketoblisslabs.com'', ''ekii.de'', ''doer.sbs'',
                       ''asia-mail.com'', ''besenica.com'', ''badfist.com'', ''comfythings.com'']"
    by (simp add: priorityOrder_def movedToFront_def)
  have "sorted (map (\<lambda>d. ckey (toLowerCase d)) (removeFirsts movedToFront (sortDomains ckey xs)))"
    by (intro sorted_removeFirsts sorted_sortDomains)
  then have d: "\<exists>rest. reorderDomainsToTry ckey xs = firstOccurrences priorityOrder xs @ rest
          \<and> sorted (map (\<lambda>d. ckey (toLowerCase d)) rest)"
    using reorder_conv[of ckey xs] by blast
  have e: "map toLowerCase (firstOccurrences priorityOrder xs)
       = filter (\<lambda>p. p \<in> toLowerCase ` set xs) priorityOrder"
    by (rule lower_firstOccurrences)
  show ?thesis using b d e by blast
qed

text \<open>The block of the eight names moved last, and what comes behind it.\<close>

lemma firstOccurrences_append:
  "firstOccurrences (ps @ qs) xs = firstOccurrences ps xs @ firstOccurrences qs xs"
  by (induction ps) (simp_all add: firstOccurrences_Nil firstOccurrences_Cons split: option.splits)

lemma not_named_after_removeFirst:
  "distinct (map toLowerCase ys) \<Longrightarrow> r \<in> set (removeFirst (named n) ys) \<Longrightarrow> \<not> named n r"
proof (induction ys)
  case Nil
  then show ?case by simp
next
  case (Cons y ys)
  show ?case
  proof (cases "named n y")
    case True
    then have "r \<in> set ys" using Cons.prems(2) by simp
    moreover have "toLowerCase y \<notin> toLowerCase ` set ys" using Cons.prems(1) by simp
    ultimately show ?thesis using True by (metis named_def image_eqI)
  next
    case False
    then show ?thesis using Cons by auto
  qed
qed

lemma distinct_map_removeFirst:
  "distinct (map f ys) \<Longrightarrow> distinct (map f (removeFirst p ys))"
proof (induction ys)
  case Nil
  then show ?case by simp
next
  case (Cons y ys)
  have "\<And>x. x \<in> set (removeFirst p ys) \<Longrightarrow> x \<in> set ys"
    using set_removeFirst[of p ys] by blast
  then show ?case using Cons by auto
qed

lemma set_removeFirsts: "set (removeFirsts ns ys) \<subseteq> set ys"
proof (induction ns arbitrary: ys)
  case Nil
  then show ?case by (simp add: removeFirsts_Nil)
next
  case (Cons m ms)
  show ?case
    using Cons.IH[of "removeFirst (named m) ys"] set_removeFirst[of "named m" ys]
    by (auto simp: removeFirsts_Cons)
qed

lemma not_named_after_removeFirsts:
  "distinct (map toLowerCase ys) \<Longrightarrow> n \<in> set ns \<Longrightarrow> r \<in> set (removeFirsts ns ys) \<Longrightarrow> \<not> named n r"
proof (induction ns arbitrary: ys)
  case Nil
  then show ?case by simp
next
  case (Cons m ms)
  have r: "r \<in> set (removeFirsts ms (removeFirst (named m) ys))"
    using Cons.prems(3) by (simp add: removeFirsts_Cons)
  show ?case
  proof (cases "n = m")
    case True
    have "r \<in> set (removeFirst (named m) ys)" using r set_removeFirsts by blast
    then show ?thesis using True not_named_after_removeFirst[OF Cons.prems(1)] by blast
  next
    case False
    then have "n \<in> set ms" using Cons.prems(2) by simp
    then show ?thesis
      using Cons.IH[OF distinct_map_removeFirst[OF Cons.prems(1)] _ r] by blast
  qed
qed

lemma distinct_lower_sortDomains:
  "distinct (map toLowerCase (sortDomains ckey xs)) = distinct (map toLowerCase xs)"
  by (simp add: sortDomains_def distinct_map)

lemma priorityOrder_split: "priorityOrder = lastEightMoved @ [''comfythings.com'']"
  by (simp add: priorityOrder_def lastEightMoved_def movedToFront_def)

lemma lastEightMoved_names:
  "lastEightMoved = [''mail.tm'', ''elyxstore.com'', ''ketoblisslabs.com'', ''ekii.de'', ''doer.sbs'',
                     ''asia-mail.com'', ''besenica.com'', ''badfist.com'']"
  by (simp add: lastEightMoved_def movedToFront_def)

lemma reorder_eight_front:
  "\<exists>rest. reorderDomainsToTry ckey xs = firstOccurrences lastEightMoved xs @ rest
      \<and> (distinct (map toLowerCase xs) \<longrightarrow> (\<forall>r \<in> set rest. toLowerCase r \<notin> set lastEightMoved))"
proof -
  let ?c = "firstOccurrences [''comfythings.com''] xs"
  let ?R = "removeFirsts movedToFront (sortDomains ckey xs)"
  have eq: "reorderDomainsToTry ckey xs = firstOccurrences lastEightMoved xs @ (?c @ ?R)"
    by (simp add: reorder_conv priorityOrder_split firstOccurrences_append)
  have "\<forall>r \<in> set (?c @ ?R). toLowerCase r \<notin> set lastEightMoved" if d: "distinct (map toLowerCase xs)"
  proof
    fix r assume "r \<in> set (?c @ ?R)"
    then consider "r \<in> set ?c" | "r \<in> set ?R" by auto
    then show "toLowerCase r \<notin> set lastEightMoved"
    proof cases
      case 1
      then have "named ''comfythings.com'' r" using firstOccurrences_named by fastforce
      then show ?thesis by (simp add: named_def lastEightMoved_names)
    next
      case 2
      have ds: "distinct (map toLowerCase (sortDomains ckey xs))"
        using d by (simp add: distinct_lower_sortDomains)
      show ?thesis
      proof
        assume "toLowerCase r \<in> set lastEightMoved"
        then have "toLowerCase r \<in> set movedToFront"
          by (auto simp: lastEightMoved_def movedToFront_def)
        then have "\<not> named (toLowerCase r) r"
          using not_named_after_removeFirsts[OF ds _ 2] by blast
        then show False by (simp add: named_def)
      qed
    qed
  qed
  then show ?thesis using eq by blast
qed

text \<open>
  Claim C2. The reordering (the stable sort by the lower-case form, then the moves to
  the front) is idempotent: applied to its own output it changes nothing; and it is a
  function of its input. The eight names \<^verbatim>\<open>mail.tm\<close>, \<^verbatim>\<open>elyxstore.com\<close>,
  \<^verbatim>\<open>ketoblisslabs.com\<close>, \<^verbatim>\<open>ekii.de\<close>, \<^verbatim>\<open>doer.sbs\<close>, \<^verbatim>\<open>asia-mail.com\<close>,
  \<^verbatim>\<open>besenica.com\<close>, \<^verbatim>\<open>badfist.com\<close> (compared in lower case) stand at the front of
  the output, each one that occurs in the input once, in this order, whatever the order
  of the input: the names of the front block are the names of this list that are among
  the lower-case forms of the input. For an input without two entries of the same
  lower-case form, none of the eight names occurs behind the block. (The code moves a
  ninth name, \<^verbatim>\<open>comfythings.com\<close>, before these eight: it ends up directly behind the
  block.)
\<close>

theorem C2_reorder_idempotent_priorities_first:
  "reorderDomainsToTry ckey (reorderDomainsToTry ckey xs) = reorderDomainsToTry ckey xs
   \<and> lastEightMoved = [''mail.tm'', ''elyxstore.com'', ''ketoblisslabs.com'', ''ekii.de'', ''doer.sbs'',
                        ''asia-mail.com'', ''besenica.com'', ''badfist.com'']
   \<and> (\<exists>rest. reorderDomainsToTry ckey xs = firstOccurrences lastEightMoved xs @ rest
          \<and> (distinct (map toLowerCase xs) \<longrightarrow> (\<forall>r \<in> set rest. toLowerCase r \<notin> set lastEightMoved)))
   \<and> map toLowerCase (firstOccurrences lastEightMoved xs)
       = filter (\<lambda>p. p \<in> toLowerCase ` set xs) lastEightMoved"
  using reorder_idempotent[of ckey xs] lastEightMoved_names reorder_eight_front[of ckey xs]
    lower_firstOccurrences[of lastEightMoved xs]
  by blast

lemma reorder_preferred: "reorderDomainsToTry byteOrder DEFAULT_PREFERRED_DOMAINS
     = [''mail.tm'', ''elyxstore.com'', ''ketoblisslabs.com'', ''ekii.de'', ''doer.sbs'',
        ''asia-mail.com'', ''besenica.com'', ''badfist.com'', ''comfythings.com'']"
  by code_simp

lemma distinct_preferred: "distinct (map toLowerCase DEFAULT_PREFERRED_DOMAINS)"
  by code_simp

theorem C2_reorder_idempotent_priorities_first_witness:
  "distinct (map toLowerCase DEFAULT_PREFERRED_DOMAINS)
   \<and> reorderDomainsToTry byteOrder DEFAULT_PREFERRED_DOMAINS = lastEightMoved @ [''comfythings.com'']
   \<and> (\<exists>rest. reorderDomainsToTry byteOrder DEFAULT_PREFERRED_DOMAINS
                 = firstOccurrences lastEightMoved DEFAULT_PREFERRED_DOMAINS @ rest
          \<and> (\<forall>r \<in> set rest. toLowerCase r \<notin> set lastEightMoved))
   \<and> reorderDomainsToTry byteOrder (reorderDomainsToTry byteOrder DEFAULT_PREFERRED_DOMAINS)
       = reorderDomainsToTry byteOrder DEFAULT_PREFERRED_DOMAINS"
proof -
  have a: "reorderDomainsToTry byteOrder DEFAULT_PREFERRED_DOMAINS = lastEightMoved @ [''comfythings.com'']"
    by (simp add: reorder_preferred lastEightMoved_names)
  show ?thesis
    using distinct_preferred a
      C2_reorder_idempotent_priorities_first[of byteOrder DEFAULT_PREFERRED_DOMAINS]
    by blast
qed

section \<open>Provisioning by rotation\<close>

text \<open>
  Without a requested domain, and when both readings of the catalog succeed,
  \<^verbatim>\<open>provisionMailboxWithMailTm\<close> is the rotation over the reordered candidates.
\<close>

lemma provisionMailboxWithMailTm_rotation:
  assumes "\<not> truthy preferredDomain"
    and "getAvailablePreferredDomains ckey (catalogClock1 pe) (catalogEnv1 pe) (cachedDomains st)
           = (Inr availablePreferred, cache1)"
    and "getAvailableDomains (catalogClock2 pe) (catalogEnv2 pe) cache1 = (Inr allDomains, cache2)"
  shows "provisionMailboxWithMailTm ckey preferredDomain pe st
     = tryDomainsInRotation
         (reorderDomainsToTry ckey
            (if availablePreferred \<noteq> [] then availablePreferred else listDomainStrings allDomains))
         (attempts pe) (st\<lparr>cachedDomains := cache2\<rparr>)"
  using assms by (simp add: provisionMailboxWithMailTm_def Let_def)

lemma splitOn_absent: "sep \<notin> set s \<Longrightarrow> splitOn sep s = [s]"
  by (induction s) auto

lemma splitOn_first: "sep \<notin> set a \<Longrightarrow> splitOn sep (a @ sep # b) = a # splitOn sep b"
  by (induction a) auto

lemma alphabet_length: "length alphabet = 36"
  by (simp add: alphabet_def)

lemma letters_length: "length letters = 26"
  by (simp add: letters_def)

lemma alphabet_nth: "k < 36 \<Longrightarrow> alphabet ! k \<noteq> CHR ''@''"
proof -
  assume "k < 36"
  then have "k < length alphabet" by (simp only: alphabet_length)
  then have "alphabet ! k \<in> set alphabet" by (rule nth_mem)
  moreover have "CHR ''@'' \<notin> set alphabet" by (simp add: alphabet_def)
  ultimately show ?thesis by metis
qed

lemma letters_nth: "k < 26 \<Longrightarrow> letters ! k \<noteq> CHR ''@''"
proof -
  assume "k < 26"
  then have "k < length letters" by (simp only: letters_length)
  then have "letters ! k \<in> set letters" by (rule nth_mem)
  moreover have "CHR ''@'' \<notin> set letters" by (simp add: letters_def)
  ultimately show ?thesis by metis
qed

lemma localPart_no_at: "CHR ''@'' \<notin> set (generateLocalPart rnd)"
proof
  assume "CHR ''@'' \<in> set (generateLocalPart rnd)"
  then have "CHR ''@'' = letters ! (rnd 0 mod 26)
      \<or> (\<exists>i. CHR ''@'' = alphabet ! (rnd (i + 1) mod 36))"
    unfolding generateLocalPart_def alphabet_length letters_length by auto
  moreover have "letters ! (rnd 0 mod 26) \<noteq> CHR ''@''" by (rule letters_nth) simp
  moreover have "\<And>i. alphabet ! (rnd (i + 1) mod 36) \<noteq> CHR ''@''" by (rule alphabet_nth) simp
  ultimately show False by metis
qed

lemma actualDomain_is_domain:
  assumes "CHR ''@'' \<notin> set dname"
  shows "(case splitOn CHR ''@'' (generateLocalPart rnd @ ''@'' @ dname) of
            p0 # p1 # ps \<Rightarrow> if p1 \<noteq> [] then p1 else dname
          | other \<Rightarrow> dname) = dname"
proof -
  have "splitOn CHR ''@'' (generateLocalPart rnd @ CHR ''@'' # dname) = [generateLocalPart rnd, dname]"
    using splitOn_first[OF localPart_no_at, of rnd dname] splitOn_absent[OF assms] by simp
  then show ?thesis by simp
qed

lemma request_4xx:
  assumes "env 0 = Response status body parsed" and "400 \<le> status" and "status < 500"
  shows "\<exists>d. snd (mailTmRequest env 0 3) = Inl (HttpError status d)"
  using assms by (subst mailTmRequest.simps) (simp add: response_ok_def Let_def)

lemma request_2xx:
  assumes "env 0 = Response status body (Some v)" and "response_ok status" and "body \<noteq> []"
  shows "snd (mailTmRequest env 0 3) = Inr v"
  using assms by (subst mailTmRequest.simps) (simp add: Let_def)

lemma createAndAuthenticate_error:
  "snd (mailTmRequest (accountsEnv ae) 0 3) = Inl e \<Longrightarrow> createAndAuthenticate dname ae = Inl e"
  by (simp add: createAndAuthenticate_def Let_def)

lemma rotationAttempt_error:
  "snd (mailTmRequest (accountsEnv ae) 0 3) = Inl e \<Longrightarrow> rotationAttempt len dname ae cursor = (Inl e, cursor)"
  by (simp add: rotationAttempt_def createAndAuthenticate_error)

lemma rotationCatch_429: "err_status e = JNum 429 \<Longrightarrow> rotationCatch e = Inr NextDomainRateLimited"
  by (simp add: rotationCatch_def)

lemma attempts_429:
  assumes "accountsEnv (aenv 0) 0 = Response 429 body parsed"
  shows "attemptsOnDomain len dname aenv 0 cursor = (GaveUp True, cursor)"
proof -
  obtain d where "snd (mailTmRequest (accountsEnv (aenv 0)) 0 3) = Inl (HttpError 429 d)"
    using request_4xx[of "accountsEnv (aenv 0)" 429 body parsed] assms by auto
  then have "rotationAttempt len dname (aenv 0) cursor = (Inl (HttpError 429 d), cursor)"
    by (rule rotationAttempt_error)
  then show ?thesis
    by (subst attemptsOnDomain.simps) (simp add: rotationCatch_429)
qed

lemma authenticateMailTm_success:
  assumes "snd (mailTmRequest env 0 3) = Inr data"
    and "field ''expires_in'' data = JNull \<or> (\<exists>n. field ''expires_in'' data = JNum n)"
    and "validTime (now + (case field ''expires_in'' data of JNum n \<Rightarrow> if n \<noteq> 0 then n else 3600 | other \<Rightarrow> 3600) * 1000)"
  shows "\<exists>auth. authenticateMailTm now env = Inr auth \<and> auth_token auth = field ''token'' data"
  using assms by (auto simp: authenticateMailTm_def Let_def)

lemma rotationAttempt_success:
  assumes "snd (mailTmRequest (accountsEnv ae) 0 3) = Inr account" and "account \<noteq> JNull"
    and "authenticateMailTm (tokenClock ae) (tokenEnv ae) = Inr auth"
    and "CHR ''@'' \<notin> set dname"
  shows "\<exists>cred. rotationAttempt len dname ae cursor = (Inr cred, (cursor + 1) mod len)
           \<and> domain cred = dname \<and> token cred = auth_token auth
           \<and> accountId cred = field ''id'' account
           \<and> address cred = generateLocalPart (localPartDraws ae) @ ''@'' @ dname"
  using assms actualDomain_is_domain[OF assms(4), of "localPartDraws ae"]
  by (simp add: rotationAttempt_def createAndAuthenticate_def credentialOf_def Let_def)

lemma attempts_created:
  "rotationAttempt len dname (aenv 0) cursor = (Inr cred, cursor1) \<Longrightarrow>
   attemptsOnDomain len dname aenv 0 cursor = (Created cred, cursor1)"
  by (subst attemptsOnDomain.simps) simp

lemma rotationLoop_gaveUp:
  "domainOffset < m \<Longrightarrow>
   attemptsOnDomain (length ds) (ds ! ((s + domainOffset) mod length ds)) (env domainOffset) 0 cursor
     = (GaveUp b, cursor1) \<Longrightarrow>
   rotationLoop ds s m env domainOffset rl cursor
     = rotationLoop ds s m env (Suc domainOffset) (if b then Suc rl else rl) cursor1"
  by (subst rotationLoop.simps) (simp add: Let_def)

lemma rotationLoop_created:
  "domainOffset < m \<Longrightarrow>
   attemptsOnDomain (length ds) (ds ! ((s + domainOffset) mod length ds)) (env domainOffset) 0 cursor
     = (Created cred, cursor1) \<Longrightarrow>
   rotationLoop ds s m env domainOffset rl cursor = (RotationSuccess cred rl, cursor1)"
  by (subst rotationLoop.simps) (simp add: Let_def)

lemma rotationLoop_done:
  "\<not> domainOffset < m \<Longrightarrow> rotationLoop ds s m env domainOffset rl cursor = (RotationExhausted rl, cursor)"
  by (subst rotationLoop.simps) simp

text \<open>
  Claim C5. In provisioning without an explicit domain, over a list of at least three
  domains to try: when the \<^verbatim>\<open>POST /accounts\<close> request for the first domain of the
  trial sequence is answered 429, the one for the second domain is answered 429, and the
  one for the third domain is answered 201 with an account and the \<^verbatim>\<open>POST /token\<close>
  request then returns a token, the rotation returns a credential whose domain is the
  third trial domain (the list entry at \<open>(start + 2) mod L\<close>) and whose token is the one
  returned, with \<^verbatim>\<open>rateLimitedDomains\<close> at exactly 2, and the cursor moves on by one.
  Domain names contain no \<^verbatim>\<open>@\<close>. The token answer gives no \<^verbatim>\<open>expires_in\<close> or a whole
  number of seconds, and the expiry it leads to (after 3600 s when the lifetime is absent
  or 0) is a valid date.
\<close>

theorem C5_two_rate_limited_then_success:
  assumes len: "3 \<le> length domainsToTry"
    and first: "accountsEnv (env 0 0) 0 = Response 429 body0 parsed0"
    and second: "accountsEnv (env 1 0) 0 = Response 429 body1 parsed1"
    and third: "accountsEnv (env 2 0) 0 = Response 201 body2 (Some account)"
        "body2 \<noteq> []" "account \<noteq> JNull"
    and tok: "tokenEnv (env 2 0) 0 = Response 200 body3 (Some data)" "body3 \<noteq> []"
        "field ''token'' data = JStr tokenText"
    and lifetime: "field ''expires_in'' data = JNull \<or> (\<exists>n. field ''expires_in'' data = JNum n)"
        "validTime (tokenClock (env 2 0)
           + (case field ''expires_in'' data of JNum n \<Rightarrow> if n \<noteq> 0 then n else 3600 | other \<Rightarrow> 3600) * 1000)"
    and noat: "CHR ''@'' \<notin> set (domainsToTry ! ((domainRotationIndex st mod length domainsToTry + 2) mod length domainsToTry))"
  shows "\<exists>cred.
           rotationLoop domainsToTry (domainRotationIndex st mod length domainsToTry)
               (min (length domainsToTry) 15) env 0 0 (domainRotationIndex st)
             = (RotationSuccess cred 2, (domainRotationIndex st + 1) mod length domainsToTry)
         \<and> tryDomainsInRotation domainsToTry env st
             = (Inr cred, st\<lparr>domainRotationIndex := (domainRotationIndex st + 1) mod length domainsToTry\<rparr>)
         \<and> domain cred = domainsToTry ! ((domainRotationIndex st mod length domainsToTry + 2) mod length domainsToTry)
         \<and> token cred = JStr tokenText"
proof -
  let ?L = "length domainsToTry"
  let ?C = "domainRotationIndex st"
  let ?s = "?C mod ?L"
  let ?m = "min ?L 15"
  let ?third = "domainsToTry ! ((?s + 2) mod ?L)"
  have m3: "0 < ?m" "Suc 0 < ?m" "Suc (Suc 0) < ?m" using len by linarith+
  have a0: "attemptsOnDomain ?L (domainsToTry ! ((?s + 0) mod ?L)) (env 0) 0 ?C = (GaveUp True, ?C)"
    using first by (intro attempts_429[of "env 0" body0 parsed0])
  have a1: "attemptsOnDomain ?L (domainsToTry ! ((?s + Suc 0) mod ?L)) (env (Suc 0)) 0 ?C = (GaveUp True, ?C)"
    using second by (intro attempts_429[of "env (Suc 0)" body1 parsed1]) simp
  have r1: "snd (mailTmRequest (accountsEnv (env 2 0)) 0 3) = Inr account"
    using request_2xx[of "accountsEnv (env 2 0)" 201 body2 account] third by (simp add: response_ok_def)
  have r2: "snd (mailTmRequest (tokenEnv (env 2 0)) 0 3) = Inr data"
    using request_2xx[of "tokenEnv (env 2 0)" 200 body3 data] tok by (simp add: response_ok_def)
  obtain auth where au: "authenticateMailTm (tokenClock (env 2 0)) (tokenEnv (env 2 0)) = Inr auth"
      "auth_token auth = field ''token'' data"
    using authenticateMailTm_success[OF r2 lifetime] by blast
  obtain cred where c: "rotationAttempt ?L ?third (env 2 0) ?C = (Inr cred, (?C + 1) mod ?L)"
      "domain cred = ?third" "token cred = auth_token auth"
    using rotationAttempt_success[OF r1 third(3) au(1) noat] by blast
  have a2: "attemptsOnDomain ?L (domainsToTry ! ((?s + Suc (Suc 0)) mod ?L)) (env (Suc (Suc 0))) 0 ?C
      = (Created cred, (?C + 1) mod ?L)"
    using c(1) by (intro attempts_created) (simp add: numeral_2_eq_2)
  have "rotationLoop domainsToTry ?s ?m env 0 0 ?C = rotationLoop domainsToTry ?s ?m env (Suc 0) (Suc 0) ?C"
    using rotationLoop_gaveUp[where domainOffset=0 and env=env and ds=domainsToTry and s="?s" and m="?m"
        and b=True and rl=0 and cursor="?C" and ?cursor1.0="?C"] m3(1) a0 by simp
  also have "\<dots> = rotationLoop domainsToTry ?s ?m env (Suc (Suc 0)) (Suc (Suc 0)) ?C"
    using rotationLoop_gaveUp[where domainOffset="Suc 0" and env=env and ds=domainsToTry and s="?s" and m="?m"
        and b=True and rl="Suc 0" and cursor="?C" and ?cursor1.0="?C"] m3(2) a1 by simp
  also have "\<dots> = (RotationSuccess cred (Suc (Suc 0)), (?C + 1) mod ?L)"
    using rotationLoop_created[where domainOffset="Suc (Suc 0)" and env=env and ds=domainsToTry and s="?s"
        and m="?m" and cred=cred and rl="Suc (Suc 0)" and cursor="?C" and ?cursor1.0="(?C + 1) mod ?L"] m3(3) a2
    by simp
  finally have loop: "rotationLoop domainsToTry ?s ?m env 0 0 ?C = (RotationSuccess cred 2, (?C + 1) mod ?L)"
    by (simp add: numeral_2_eq_2)
  have ne: "length domainsToTry \<noteq> 0" using len by auto
  have "tryDomainsInRotation domainsToTry env st
          = (Inr cred, st\<lparr>domainRotationIndex := (?C + 1) mod ?L\<rparr>)"
    using loop ne by (simp add: tryDomainsInRotation_def Let_def)
  then show ?thesis using loop c au(2) tok(3) by auto
qed

theorem C5_two_rate_limited_then_success_witness:
  "3 \<le> length sampleDomains
   \<and> accountsEnv (env_429_429_created 0 0) 0
        = Response 429 ''{\"detail\":\"Too many requests\"}'' (Some (JObj [(''detail'', JStr ''Too many requests'')]))
   \<and> accountsEnv (env_429_429_created 1 0) 0
        = Response 429 ''{\"detail\":\"Too many requests\"}'' (Some (JObj [(''detail'', JStr ''Too many requests'')]))
   \<and> accountsEnv (env_429_429_created 2 0) 0
        = Response 201 ''{\"id\":\"acc-1\"}'' (Some (JObj [(''id'', JStr ''acc-1'')]))
   \<and> tokenEnv (env_429_429_created 2 0) 0
        = Response 200 ''{\"token\":\"jwt-1\"}'' (Some (JObj [(''token'', JStr ''jwt-1'')]))
   \<and> field ''expires_in'' (JObj [(''token'', JStr ''jwt-1'')]) = JNull
   \<and> validTime (tokenClock (env_429_429_created 2 0) + 3600 * 1000)
   \<and> domainRotationIndex sampleState = 5
   \<and> CHR ''@'' \<notin> set ''ekii.de''
   \<and> (\<exists>cred. rotationLoop sampleDomains 2 3 env_429_429_created 0 0 5 = (RotationSuccess cred 2, 0)
          \<and> tryDomainsInRotation sampleDomains env_429_429_created sampleState
               = (Inr cred, sampleState\<lparr>domainRotationIndex := 0\<rparr>)
          \<and> domain cred = ''ekii.de''
          \<and> token cred = JStr ''jwt-1'')"
proof -
  have len: "3 \<le> length sampleDomains" by (simp add: sampleDomains_def)
  have e0: "accountsEnv (env_429_429_created 0 0) 0
        = Response 429 ''{\"detail\":\"Too many requests\"}'' (Some (JObj [(''detail'', JStr ''Too many requests'')]))"
    by (simp add: env_429_429_created_def attempt_429_def)
  have e1: "accountsEnv (env_429_429_created 1 0) 0
        = Response 429 ''{\"detail\":\"Too many requests\"}'' (Some (JObj [(''detail'', JStr ''Too many requests'')]))"
    by (simp add: env_429_429_created_def attempt_429_def)
  have e2: "accountsEnv (env_429_429_created 2 0) 0
        = Response 201 ''{\"id\":\"acc-1\"}'' (Some (JObj [(''id'', JStr ''acc-1'')]))"
    by (simp add: env_429_429_created_def attempt_created_def)
  have e3: "tokenEnv (env_429_429_created 2 0) 0
        = Response 200 ''{\"token\":\"jwt-1\"}'' (Some (JObj [(''token'', JStr ''jwt-1'')]))"
    by (simp add: env_429_429_created_def attempt_created_def)
  have i: "domainRotationIndex sampleState = 5" by (simp add: sampleState_def)
  have l3: "length sampleDomains = 3" by (simp add: sampleDomains_def)
  have third: "sampleDomains ! ((domainRotationIndex sampleState mod length sampleDomains + 2) mod length sampleDomains) = ''ekii.de''"
    by (simp add: i l3) (simp add: sampleDomains_def)
  have noat: "CHR ''@'' \<notin> set (sampleDomains ! ((domainRotationIndex sampleState mod length sampleDomains + 2) mod length sampleDomains))"
    unfolding third by simp
  have n1: "''{\"id\":\"acc-1\"}'' \<noteq> []" "JObj [(''id'', JStr ''acc-1'')] \<noteq> JNull"
    "''{\"token\":\"jwt-1\"}'' \<noteq> []" "field ''token'' (JObj [(''token'', JStr ''jwt-1'')]) = JStr ''jwt-1''"
    by simp_all
  have x: "field ''expires_in'' (JObj [(''token'', JStr ''jwt-1'')]) = JNull" by simp
  have x1: "field ''expires_in'' (JObj [(''token'', JStr ''jwt-1'')]) = JNull
      \<or> (\<exists>n. field ''expires_in'' (JObj [(''token'', JStr ''jwt-1'')]) = JNum n)" by simp
  have v: "validTime (tokenClock (env_429_429_created 2 0) + 3600 * 1000)"
    by (simp add: env_429_429_created_def attempt_created_def validTime_def)
  have x2: "validTime (tokenClock (env_429_429_created 2 0)
           + (case field ''expires_in'' (JObj [(''token'', JStr ''jwt-1'')]) of
                JNum n \<Rightarrow> if n \<noteq> 0 then n else 3600 | other \<Rightarrow> 3600) * 1000)"
    using v by simp
  have "\<exists>cred. rotationLoop sampleDomains 2 3 env_429_429_created 0 0 5 = (RotationSuccess cred 2, 0)
          \<and> tryDomainsInRotation sampleDomains env_429_429_created sampleState
               = (Inr cred, sampleState\<lparr>domainRotationIndex := 0\<rparr>)
          \<and> domain cred = ''ekii.de''
          \<and> token cred = JStr ''jwt-1''"
    using C5_two_rate_limited_then_success[where env=env_429_429_created
        and domainsToTry=sampleDomains and st=sampleState,
        OF len e0 e1 e2 n1(1) n1(2) e3 n1(3) n1(4) x1 x2 noat]
    unfolding third by (simp add: i l3)
  then show ?thesis using len e0 e1 e2 e3 i x v by simp
qed

text \<open>
  Exhaustion. When the attempts on every domain of the trial sequence end without an
  account and leave the cursor where it was, provisioning moves the cursor on by one
  (modulo the length of the list) and throws an error whose message is the rate-limited
  sentence exactly when the number of domains counted as rate-limited is at least
  \<open>trialCount - 2\<close>, and the unavailability sentence otherwise; the two sentences
  differ. \<open>trialCount\<close> is \<open>min L 15\<close>.
\<close>

lemma rotationLoop_exhausted:
  assumes "\<forall>d. k \<le> d \<and> d < m \<longrightarrow>
             (\<exists>b. attemptsOnDomain (length ds) (ds ! ((s + d) mod length ds)) (env d) 0 c = (GaveUp b, c))"
  shows "rotationLoop ds s m env k rl c
     = (RotationExhausted (rl + length (filter
          (\<lambda>d. attemptsOnDomain (length ds) (ds ! ((s + d) mod length ds)) (env d) 0 c = (GaveUp True, c))
          [k ..< m])), c)"
  using assms
proof (induction "m - k" arbitrary: k rl)
  case 0
  then show ?case by (simp add: rotationLoop_done)
next
  case (Suc n)
  then have km: "k < m" by simp
  then obtain b where b: "attemptsOnDomain (length ds) (ds ! ((s + k) mod length ds)) (env k) 0 c = (GaveUp b, c)"
    using Suc.prems by blast
  have step: "rotationLoop ds s m env k rl c = rotationLoop ds s m env (Suc k) (if b then Suc rl else rl) c"
    using rotationLoop_gaveUp[where domainOffset=k and env=env and ds=ds and s=s and m=m and b=b and rl=rl
        and cursor=c and ?cursor1.0=c] km b
    by simp
  have ih: "rotationLoop ds s m env (Suc k) (if b then Suc rl else rl) c
     = (RotationExhausted ((if b then Suc rl else rl) + length (filter
          (\<lambda>d. attemptsOnDomain (length ds) (ds ! ((s + d) mod length ds)) (env d) 0 c = (GaveUp True, c))
          [Suc k ..< m])), c)"
    using Suc.hyps(2) Suc.prems by (intro Suc.hyps(1)) auto
  have up: "[k ..< m] = k # [Suc k ..< m]" using km by (rule upt_conv_Cons)
  show ?case unfolding step ih up using b by simp
qed

lemma tryDomainsInRotation_exhausted:
  assumes "domainsToTry \<noteq> []"
    and "\<forall>d < min (length domainsToTry) 15.
           \<exists>b. attemptsOnDomain (length domainsToTry)
                  (domainsToTry ! ((domainRotationIndex st mod length domainsToTry + d) mod length domainsToTry))
                  (env d) 0 (domainRotationIndex st) = (GaveUp b, domainRotationIndex st)"
  shows "(let L = length domainsToTry;
              trialCount = min L 15;
              rateLimited = length (filter
                 (\<lambda>d. attemptsOnDomain L
                         (domainsToTry ! ((domainRotationIndex st mod L + d) mod L)) (env d) 0
                         (domainRotationIndex st) = (GaveUp True, domainRotationIndex st))
                 [0 ..< trialCount])
          in tryDomainsInRotation domainsToTry env st
               = (Inl (PlainError (if int rateLimited \<ge> int trialCount - 2 then rateLimitedMessage
                                   else unavailableMessage)),
                  st\<lparr>domainRotationIndex := (domainRotationIndex st + 1) mod L\<rparr>))
         \<and> rateLimitedMessage \<noteq> unavailableMessage"
proof -
  have ex: "rotationLoop domainsToTry (domainRotationIndex st mod length domainsToTry)
              (min (length domainsToTry) 15) env 0 0 (domainRotationIndex st)
     = (RotationExhausted (0 + length (filter
          (\<lambda>d. attemptsOnDomain (length domainsToTry)
                  (domainsToTry ! ((domainRotationIndex st mod length domainsToTry + d)
                   mod length domainsToTry)) (env d) 0 (domainRotationIndex st)
                = (GaveUp True, domainRotationIndex st)) [0 ..< min (length domainsToTry) 15])),
        domainRotationIndex st)"
    using assms(2) by (intro rotationLoop_exhausted) auto
  have msg: "rateLimitedMessage \<noteq> unavailableMessage"
    by (simp add: rateLimitedMessage_def unavailableMessage_def)
  show ?thesis
    using assms(1) ex msg by (simp add: tryDomainsInRotation_def Let_def)
qed

lemma all_429_gaveUp: "attemptsOnDomain len dname (env_all_429 d) 0 cursor = (GaveUp True, cursor)"
  by (rule attempts_429[of "env_all_429 d" "''{\"detail\":\"Too many requests\"}''"
        "Some (JObj [(''detail'', JStr ''Too many requests'')])"])
     (simp add: env_all_429_def attempt_429_def)

lemma all_429_exhausted:
  "tryDomainsInRotation sampleDomains env_all_429 sampleState
        = (Inl (PlainError rateLimitedMessage), sampleState\<lparr>domainRotationIndex := 0\<rparr>)"
proof -
  have ne: "sampleDomains \<noteq> []" by (simp add: sampleDomains_def)
  have h: "\<forall>d < min (length sampleDomains) 15.
           \<exists>b. attemptsOnDomain (length sampleDomains)
                  (sampleDomains ! ((domainRotationIndex sampleState mod length sampleDomains + d) mod length sampleDomains))
                  (env_all_429 d) 0 (domainRotationIndex sampleState) = (GaveUp b, domainRotationIndex sampleState)"
    by (auto simp add: all_429_gaveUp)
  have l3: "length sampleDomains = 3" by (simp add: sampleDomains_def)
  have i: "domainRotationIndex sampleState = 5" by (simp add: sampleState_def)
  show ?thesis
    using tryDomainsInRotation_exhausted[OF ne h]
    by (simp add: Let_def all_429_gaveUp l3 i)
qed

lemma null_account_request: "snd (mailTmRequest (accountsEnv attempt_null_account) 0 3) = Inr JNull"
  by (simp add: mailTmRequest.simps attempt_null_account_def response_ok_def)

lemma null_account_token_request:
  "snd (mailTmRequest (tokenEnv attempt_null_account) 0 3) = Inr (JObj [(''token'', JStr ''jwt-1'')])"
  by (simp add: mailTmRequest.simps attempt_null_account_def response_ok_def)

lemma null_account_attempt:
  "rotationAttempt 3 dname attempt_null_account cursor = (Inl JsTypeError, (cursor + 1) mod 3)"
proof -
  have c: "tokenClock attempt_null_account = 1000000" by (simp add: attempt_null_account_def)
  show ?thesis
    by (simp add: rotationAttempt_def createAndAuthenticate_def credentialOf_def
        authenticateMailTm_def null_account_request null_account_token_request c validTime_def
        Let_def split: list.splits)
qed

lemma null_account_gaveUp:
  "attemptsOnDomain 3 dname (env_null_account_then_429 0) 0 0 = (GaveUp False, Suc 0)"
proof -
  have e: "env_null_account_then_429 0 0 = attempt_null_account"
    by (simp add: env_null_account_then_429_def)
  show ?thesis
    by (subst attemptsOnDomain.simps) (simp add: e null_account_attempt rotationCatch_def)
qed

lemma then_429_gaveUp:
  "0 < d \<Longrightarrow> attemptsOnDomain len dname (env_null_account_then_429 d) 0 cursor = (GaveUp True, cursor)"
  by (rule attempts_429[of "env_null_account_then_429 d" "''{\"detail\":\"Too many requests\"}''"
        "Some (JObj [(''detail'', JStr ''Too many requests'')])"])
     (simp add: env_null_account_then_429_def attempt_429_def)

text \<open>
  Claim C6 at a failing input. Three domains to try, the cursor at 0. The
  \<^verbatim>\<open>POST /accounts\<close> request for the first domain is answered 201 with an empty body
  and the authentication succeeds: the body of the \<^verbatim>\<open>try\<close> moves the cursor to 1 and
  then reads \<^verbatim>\<open>account.id\<close> of \<^verbatim>\<open>null\<close>; the \<^verbatim>\<open>TypeError\<close> is caught and the loop
  goes on to the next domain. The other two domains are answered 429. Every domain is
  exhausted without a success, the message is the rate-limited sentence (2 of 3 domains),
  and the update after the loop moves the cursor again: it ends at 2, advanced by two.
\<close>

theorem C6_null_account_advances_cursor_twice:
  "domainRotationIndex initialState = 0
   \<and> length sampleDomains = 3
   \<and> tryDomainsInRotation sampleDomains env_null_account_then_429 initialState
        = (Inl (PlainError rateLimitedMessage), initialState\<lparr>domainRotationIndex := 2\<rparr>)"
proof -
  have l3: "length sampleDomains = 3" by (simp add: sampleDomains_def)
  have i: "domainRotationIndex initialState = 0" by (simp add: initialState_def)
  have s0: "rotationLoop sampleDomains 0 3 env_null_account_then_429 0 0 0
      = rotationLoop sampleDomains 0 3 env_null_account_then_429 (Suc 0) 0 (Suc 0)"
    using rotationLoop_gaveUp[where domainOffset=0 and env=env_null_account_then_429 and ds=sampleDomains
        and s=0 and m=3 and b=False and rl=0 and cursor=0 and ?cursor1.0="Suc 0"]
      null_account_gaveUp l3 by simp
  have s1: "rotationLoop sampleDomains 0 3 env_null_account_then_429 (Suc 0) 0 (Suc 0)
      = rotationLoop sampleDomains 0 3 env_null_account_then_429 (Suc (Suc 0)) (Suc 0) (Suc 0)"
    using rotationLoop_gaveUp[where domainOffset="Suc 0" and env=env_null_account_then_429 and ds=sampleDomains
        and s=0 and m=3 and b=True and rl=0 and cursor="Suc 0" and ?cursor1.0="Suc 0"]
      then_429_gaveUp[of "Suc 0"] by simp
  have s2: "rotationLoop sampleDomains 0 3 env_null_account_then_429 (Suc (Suc 0)) (Suc 0) (Suc 0)
      = rotationLoop sampleDomains 0 3 env_null_account_then_429 (Suc (Suc (Suc 0))) (Suc (Suc 0)) (Suc 0)"
    using rotationLoop_gaveUp[where domainOffset="Suc (Suc 0)" and env=env_null_account_then_429 and ds=sampleDomains
        and s=0 and m=3 and b=True and rl="Suc 0" and cursor="Suc 0" and ?cursor1.0="Suc 0"]
      then_429_gaveUp[of "Suc (Suc 0)"] by simp
  have s3: "rotationLoop sampleDomains 0 3 env_null_account_then_429 (Suc (Suc (Suc 0))) (Suc (Suc 0)) (Suc 0)
      = (RotationExhausted (Suc (Suc 0)), Suc 0)"
    by (rule rotationLoop_done) simp
  have loop: "rotationLoop sampleDomains 0 3 env_null_account_then_429 0 0 0 = (RotationExhausted 2, 1)"
    using s0 s1 s2 s3 by (simp add: numeral_2_eq_2)
  have "tryDomainsInRotation sampleDomains env_null_account_then_429 initialState
        = (Inl (PlainError rateLimitedMessage), initialState\<lparr>domainRotationIndex := 2\<rparr>)"
    using loop by (simp add: tryDomainsInRotation_def Let_def l3 i)
  then show ?thesis using l3 i by simp
qed

section \<open>Registry\<close>

text \<open>The creation route answers with the response object of the mailbox it registers.\<close>

lemma postMailboxesRoute_body:
  assumes "postMailboxesRoute ckey uuid now body pe st = (Inr response, st')"
  shows "\<exists>mb. response = buildMailboxResponse mb \<and> mailboxes st' uuid = Some mb
           \<and> expiresAt mb = now + 15 * 60 * 1000"
  using assms
  by (auto simp: postMailboxesRoute_def createMailbox_def Let_def addMinutes_def
      MAILBOX_TTL_MINUTES_def split: prod.splits sum.splits)

text \<open>
  Claim C9. For a registered mailbox that has not expired at the clock
  \<^verbatim>\<open>ensureMailbox\<close> reads, the extend route stores \<open>now' + 15 min\<close> as its
  \<^verbatim>\<open>expiresAt\<close>, where \<open>now'\<close> is the clock the handler reads: the new value does not
  depend on the old one, and nothing else of the mailbox changes.
\<close>

theorem C9_extend_resets_expiry:
  assumes "mailboxes st mid = Some mb" and "\<not> now > expiresAt mb"
  shows "\<exists>mb'. mailboxes (snd (extendRoute now now' mid st)) mid = Some mb'
            \<and> expiresAt mb' = now' + 15 * 60 * 1000
            \<and> fst (extendRoute now now' mid st) = Inr (buildMailboxResponse mb')
            \<and> mb' = mb\<lparr>expiresAt := now' + 15 * 60 * 1000\<rparr>"
  using assms
  by (simp add: extendRoute_def ensureMailbox_def Let_def addMinutes_def MAILBOX_TTL_MINUTES_def)

theorem C9_extend_resets_expiry_witness:
  "mailboxes registryState ''id-1'' = Some sampleMailbox
   \<and> \<not> 1500000 > expiresAt sampleMailbox
   \<and> (\<exists>mb'. mailboxes (snd (extendRoute 1500000 1500001 ''id-1'' registryState)) ''id-1'' = Some mb'
            \<and> expiresAt mb' = 2400001)"
proof -
  have a: "mailboxes registryState ''id-1'' = Some sampleMailbox" by (simp add: registryState_def)
  have b: "\<not> 1500000 > expiresAt sampleMailbox" by (simp add: sampleMailbox_def)
  show ?thesis using a b C9_extend_resets_expiry[OF a b, of 1500001] by auto
qed

text \<open>
  Claim C10, as the code has it. The object \<^verbatim>\<open>buildMailboxResponse\<close> returns has
  exactly the keys \<^verbatim>\<open>mailboxId\<close>, \<^verbatim>\<open>address\<close>, \<^verbatim>\<open>domain\<close>, \<^verbatim>\<open>createdAt\<close>,
  \<^verbatim>\<open>expiresAt\<close> and \<^verbatim>\<open>messageCount\<close>, and it is the same for two mailboxes that
  differ only in password, account id, token, refresh token and token expiry. So the
  bodies of the routes that answer with that object alone (the mailbox lookup and the
  extend route; the creation route answers with it too) do not change when the
  credential fields of the registered mailboxes are replaced.
\<close>

theorem C10_response_hides_credentials:
  "buildMailboxResponse (mb\<lparr>password := pw, accountId := acc, token := tok, refreshToken := rtok,
        tokenExpiresAt := texp\<rparr>) = buildMailboxResponse mb
   \<and> (case buildMailboxResponse mb of JObj kvs \<Rightarrow> map fst kvs | other \<Rightarrow> [])
       = [''mailboxId'', ''address'', ''domain'', ''createdAt'', ''expiresAt'', ''messageCount'']
   \<and> fst (getMailboxRoute now mid (st\<lparr>mailboxes := map_option (replaceCredentials pw acc tok rtok texp) \<circ> mailboxes st\<rparr>))
       = fst (getMailboxRoute now mid st)
   \<and> fst (extendRoute now now' mid (st\<lparr>mailboxes := map_option (replaceCredentials pw acc tok rtok texp) \<circ> mailboxes st\<rparr>))
       = fst (extendRoute now now' mid st)"
  by (auto simp: buildMailboxResponse_def getMailboxRoute_def extendRoute_def ensureMailbox_def
      replaceCredentials_def Let_def split: option.splits)

lemma no_mail_list_request:
  "snd (mailTmRequest (listEnv messages_env_no_mail) 0 3) = Inr (JObj [(''hydra:member'', JArr [])])"
  by (simp add: messages_env_no_mail_def catalog_empty_request)

text \<open>
  Claim C10 as stated (no API response body changes with the credential fields) fails on
  the messages route: \<^verbatim>\<open>ensureMailTmToken\<close> re-authenticates when the stored token is
  missing. With an upstream whose token endpoint never answers in time and whose message
  list is empty, the mailbox with a token gets its (empty) inbox and the same mailbox
  without a token gets the error.
\<close>

theorem C10_messages_route_counterexample:
  "fst (getMessagesRoute 1500000 messages_env_no_mail ''id-1'' registryState)
     = Inr (JObj [(''mailbox'', buildMailboxResponse (sampleMailbox\<lparr>lastMessageCount := 0\<rparr>)),
                  (''messages'', JArr [])])
   \<and> fst (getMessagesRoute 1500000 messages_env_no_mail ''id-1'' registryStateNoToken)
     = Inl (FetchRejection ''AbortError'')"
proof -
  have r: "snd (mailTmRequest (reauthEnv messages_env_no_mail) 0 3) = Inl (FetchRejection ''AbortError'')"
    by (simp add: messages_env_no_mail_def timeout_request_fails)
  have c: "tokenCheckClock messages_env_no_mail = 1500000"
    by (simp add: messages_env_no_mail_def)
  show ?thesis
    by (simp add: getMessagesRoute_def ensureMailbox_def fetchMailboxMessages_def
        ensureMailTmToken_def authenticateMailTm_def registryState_def registryStateNoToken_def
        sampleMailbox_def no_mail_list_request r c memberList_def js_or_def Let_def)
qed

section \<open>Inbox retrieval\<close>

lemma empty_body_request: "snd (mailTmRequest env_empty_body 0 3) = Inr JNull"
  by (simp add: mailTmRequest.simps env_empty_body_def response_ok_def)

lemma list_one_request:
  "snd (mailTmRequest env_list_one 0 3) = Inr (JObj [(''hydra:member'', JArr [JObj [(''id'', JStr ''m1'')]])])"
  by (simp add: mailTmRequest.simps env_list_one_def response_ok_def)

text \<open>
  Claim C8 at a failing input. One message summary, whose detail request is answered
  200 with an empty body: \<^verbatim>\<open>mailTmRequest\<close> resolves to \<^verbatim>\<open>null\<close>, the settled promise
  is fulfilled, and the normalisation reads \<^verbatim>\<open>message.id\<close> of \<^verbatim>\<open>null\<close>. The whole
  call throws a \<^verbatim>\<open>TypeError\<close> instead of returning the normalised records of the
  requests that succeeded.
\<close>

theorem C8_fulfilled_null_detail_throws:
  "fetchMailboxMessages messages_env_empty_detail sampleMailbox = (Inl JsTypeError, sampleMailbox)"
  by (simp add: fetchMailboxMessages_def messages_env_empty_detail_def ensureMailTmToken_def
      sampleMailbox_def list_one_request empty_body_request memberList_def js_or_def Let_def
      List.map_filter_simps)

text \<open>
  When no member of the list and no fulfilled detail request is \<^verbatim>\<open>null\<close>, the call
  returns the normalised records of the fulfilled detail requests, in the order of the
  summaries, and records their number.
\<close>

lemma map_filter_map: "List.map_filter f (map g xs) = List.map_filter (\<lambda>x. f (g x)) xs"
  by (induction xs) (simp_all add: List.map_filter_simps split: option.splits)

lemma map_filter_set: "set (List.map_filter f xs) = {y. \<exists>x \<in> set xs. f x = Some y}"
  by (induction xs) (auto simp: List.map_filter_simps split: option.splits)

lemma fetchMailboxMessages_partial_success:
  assumes "truthy (token mb)" and "tokenCheckClock me < tokenExpiresAt mb"
    and "snd (mailTmRequest (listEnv me) 0 3) = Inr list"
    and "memberList list \<noteq> []" and "JNull \<notin> set (memberList list)"
    and "\<forall>i < length (memberList list). snd (mailTmRequest (detailEnv me i) 0 3) \<noteq> Inr JNull"
  shows "fetchMailboxMessages me mb =
     (let fulfilled = List.map_filter
             (\<lambda>i. case snd (mailTmRequest (detailEnv me i) 0 3) of Inl reason \<Rightarrow> None | Inr v \<Rightarrow> Some v)
             [0 ..< length (memberList list)]
      in (Inr (map normalizeMessage fulfilled), mb\<lparr>lastMessageCount := length fulfilled\<rparr>))"
proof -
  let ?succ = "List.map_filter
             (\<lambda>i. case snd (mailTmRequest (detailEnv me i) 0 3) of Inl reason \<Rightarrow> None | Inr v \<Rightarrow> Some v)
             [0 ..< length (memberList list)]"
  have nonull: "JNull \<notin> set ?succ"
    using assms(6) by (auto simp: map_filter_set split: sum.splits)
  show ?thesis
    using assms(1-5) nonull
    by (simp add: fetchMailboxMessages_def ensureMailTmToken_def Let_def map_filter_map)
qed

text \<open>Three summaries, one failed detail request: the two normalised messages, and no error.\<close>

lemma three_detail_requests:
  "snd (mailTmRequest (env_detail_second_fails 0) 0 3) = Inr sampleMessage"
  "snd (mailTmRequest (env_detail_second_fails (Suc 0)) 0 3) = Inl (HttpError 404 (JObj [(''detail'', JStr ''Not Found'')]))"
  "snd (mailTmRequest (env_detail_second_fails (Suc (Suc 0))) 0 3) = Inr sampleMessage"
  by (simp_all add: mailTmRequest.simps env_detail_second_fails_def response_ok_def)

lemma list_three_request:
  "snd (mailTmRequest env_list_three 0 3)
     = Inr (JObj [(''hydra:member'',
                     JArr [JObj [(''id'', JStr ''m1'')], JObj [(''id'', JStr ''m2'')], JObj [(''id'', JStr ''m3'')]])])"
  by (simp add: mailTmRequest.simps env_list_three_def response_ok_def)

lemma fetchMailboxMessages_one_of_three_fails:
  "fetchMailboxMessages messages_env_one_of_three_fails sampleMailbox
     = (Inr [normalizeMessage sampleMessage, normalizeMessage sampleMessage],
        sampleMailbox\<lparr>lastMessageCount := 2\<rparr>)"
proof -
  have u: "[0 ..< 3] = [0, Suc 0, Suc (Suc 0)]" by (simp add: upt_rec)
  have nn: "sampleMessage \<noteq> JNull" by (simp add: sampleMessage_def)
  show ?thesis
    using nn
    by (simp add: fetchMailboxMessages_def messages_env_one_of_three_fails_def ensureMailTmToken_def
        sampleMailbox_def list_three_request three_detail_requests memberList_def js_or_def Let_def
        List.map_filter_simps u)
qed


end
